theory Spec2Isabelle
  imports Complex_Main
begin

section \<open>Data model\<close>

text \<open>
  Python floats are modelled as \<^typ>\<open>real\<close>: every statement below is about the exact
  arithmetic the code writes down, not about IEEE rounding. Python dictionaries keep
  insertion order, so the weight tables are association lists with distinct keys.
  Feedback counters start at 0 and are only ever incremented, so they are \<^typ>\<open>nat\<close>.
\<close>

text \<open>
  The \<open>tags\<close> entry of a gallery dictionary is either a list of tag strings or a string
  holding JSON text; \<open>posted\<close> is absent, a string or a point in time (microseconds).
\<close>

datatype tags_field = TagList "string list" | TagStr string

datatype posted_field = PostedNone | PostedStr string | PostedTime int

record gallery =
  gid :: int
  tags :: tags_field
  uploader :: "string option"
  rating :: real
  filecount :: int
  category :: string
  posted :: posted_field

text \<open>
  What the code takes from outside the repository: \<open>json.loads\<close> on a tag string
  (\<open>None\<close> when it raises), \<open>datetime.fromisoformat\<close> (\<open>None\<close> when it raises), and
  scikit-learn's TF-IDF vectorizer: whether \<open>fit_transform\<close> succeeds on the documents,
  and the cosine of a candidate document against the mean vector of the fitted documents
  (\<open>None\<close> when \<open>transform\<close> or \<open>cosine_similarity\<close> raises). The iteration order
  of a Python \<open>set\<close> of strings depends on the hash seed of the process: \<open>set_order\<close>
  gives it for the set holding the listed elements. \<open>list.sort\<close> only permutes its list;
  which positions it picks when a key is NaN (every comparison with it is false) is decided
  by CPython's sorting routine: \<open>nan_order\<close> gives, for the keys in list order, the old
  positions in their new order.
\<close>

record lib =
  json_loads :: "string \<Rightarrow> string list option"
  fromisoformat :: "string \<Rightarrow> int option"
  tfidf_fit_ok :: "string list \<Rightarrow> bool"
  tfidf_cosine :: "string list \<Rightarrow> string list \<Rightarrow> string \<Rightarrow> real option"
  set_order :: "string list \<Rightarrow> string list"
  nan_order :: "real option list \<Rightarrow> nat list"

text \<open>
  The idiom repeated in every analyzer:
  \<^verbatim>\<open>tags = gallery.get("tags", []);  if isinstance(tags, str): try json.loads except: []\<close>
\<close>

definition gallery_tags :: "lib \<Rightarrow> gallery \<Rightarrow> string list" where
  "gallery_tags L g =
     (case tags g of
        TagList ts \<Rightarrow> ts
      | TagStr s \<Rightarrow> (case json_loads L s of Some ts \<Rightarrow> ts | None \<Rightarrow> []))"

section \<open>Tag analyzer\<close>

subsection \<open>Counter and dictionary helpers\<close>

text \<open>\<open>counter[k] += 1\<close> on an insertion-ordered \<open>Counter\<close>.\<close>

fun counter_incr :: "'k \<Rightarrow> ('k \<times> nat) list \<Rightarrow> ('k \<times> nat) list" where
  "counter_incr k [] = [(k, 1)]"
| "counter_incr k ((k', c) # rest) =
     (if k = k' then (k', c + 1) # rest else (k', c) # counter_incr k rest)"

text \<open>\<open>Counter.update(iterable)\<close>.\<close>

definition counter_update :: "('k \<times> nat) list \<Rightarrow> 'k list \<Rightarrow> ('k \<times> nat) list" where
  "counter_update c ks = foldl (\<lambda>acc k. counter_incr k acc) c ks"

text \<open>\<open>max(d.values())\<close> on a non-empty dictionary; Python raises on the empty one, and
  every call site guards it with \<open>if d else 1.0\<close>, which \<open>max_values_or_one\<close> writes out.\<close>

fun py_max :: "real list \<Rightarrow> real" where
  "py_max [] = 0"
| "py_max (x # xs) = foldl max x xs"

definition max_values_or_one :: "('k \<times> real) list \<Rightarrow> real" where
  "max_values_or_one d = (if d = [] then 1 else py_max (map snd d))"

subsection \<open>Namespace weights\<close>

definition NAMESPACE_WEIGHTS :: "(string \<times> real) list" where
  "NAMESPACE_WEIGHTS =
     [(''female'', 12/10), (''male'', 12/10), (''parody'', 1), (''character'', 1),
      (''artist'', 9/10), (''group'', 9/10), (''language'', 11/10), (''other'', 8/10),
      (''mixed'', 1), (''cosplayer'', 7/10), (''reclass'', 5/10)]"

text \<open>\<^verbatim>\<open>namespace = tag.split(":", 1)[0] if ":" in tag else "other"\<close>\<close>

definition namespace :: "string \<Rightarrow> string" where
  "namespace tag =
     (if CHR '':'' \<in> set tag then takeWhile (\<lambda>c. c \<noteq> CHR '':'') tag else ''other'')"

text \<open>\<^verbatim>\<open>ns_weight = self.NAMESPACE_WEIGHTS.get(namespace, 1.0)\<close>\<close>

definition ns_weight :: "string \<Rightarrow> real" where
  "ns_weight tag =
     (case map_of NAMESPACE_WEIGHTS (namespace tag) of Some w \<Rightarrow> w | None \<Rightarrow> 1)"

subsection \<open>Base weights\<close>

text \<open>The tag counter built by the first loop of both weight computations.\<close>

definition tag_counter :: "lib \<Rightarrow> gallery list \<Rightarrow> (string \<times> nat) list" where
  "tag_counter L favorite_galleries =
     foldl (\<lambda>c g. counter_update c (gallery_tags L g)) [] favorite_galleries"

text \<open>\<^verbatim>\<open>base_weights[tag] = (count / len(favorite_galleries)) * ns_weight\<close>, before
  normalization.\<close>

definition base_weights :: "lib \<Rightarrow> gallery list \<Rightarrow> (string \<times> real) list" where
  "base_weights L favorite_galleries =
     map (\<lambda>(tag, count).
            (tag, (real count / real (length favorite_galleries)) * ns_weight tag))
         (tag_counter L favorite_galleries)"

text \<open>\<^verbatim>\<open>{k: v / m for k, v in d.items()}\<close>\<close>

definition scale_by :: "real \<Rightarrow> ('k \<times> real) list \<Rightarrow> ('k \<times> real) list" where
  "scale_by m d = map (\<lambda>(k, v). (k, v / m)) d"

subsection \<open>Feedback multiplier\<close>

text \<open>
  \<^verbatim>\<open>
  if pos_count == 0 and neg_count == 0: return 1.0
  multiplier = 1.0
  for i in range(pos_count): multiplier += 0.1 * 0.9 ** (i + neg_count)
  for i in range(neg_count): multiplier -= 0.15 * 0.9 ** (i + pos_count)
  return max(0.0, min(2.0, multiplier))
  \<close>
\<close>

definition compute_feedback_multiplier :: "nat \<Rightarrow> nat \<Rightarrow> real" where
  "compute_feedback_multiplier pos_count neg_count =
     (if pos_count = 0 \<and> neg_count = 0 then 1
      else
        let m1 = foldl (\<lambda>m i. m + (1/10) * (9/10) ^ (i + neg_count)) 1 [0..<pos_count];
            m2 = foldl (\<lambda>m i. m - (15/100) * (9/10) ^ (i + pos_count)) m1 [0..<neg_count]
        in max 0 (min 2 m2))"

subsection \<open>Final tag weights\<close>

text \<open>Feedback statistics: tag to (positive count, negative count); a missing tag, like
  a missing count, reads as 0.\<close>

type_synonym feedback_stats = "string \<rightharpoonup> (nat \<times> nat)"

definition stats_of :: "feedback_stats \<Rightarrow> string \<Rightarrow> nat \<times> nat" where
  "stats_of fs tag = (case fs tag of Some pn \<Rightarrow> pn | None \<Rightarrow> (0, 0))"

text \<open>\<^verbatim>\<open>tag_weights[tag] = base_weight * feedback_multiplier\<close>\<close>

definition apply_feedback :: "feedback_stats \<Rightarrow> (string \<times> real) list \<Rightarrow> (string \<times> real) list" where
  "apply_feedback fs bw =
     map (\<lambda>(tag, base_weight).
            (tag, base_weight *
                  compute_feedback_multiplier (fst (stats_of fs tag)) (snd (stats_of fs tag))))
         bw"

text \<open>
  The table \<open>compute_tag_weights_from_favorites\<close> returns. \<open>feedback_stats = None\<close> is
  replaced by the empty dictionary. The first normalization divides unguarded; the
  second one only when the maximum is positive.
\<close>

definition compute_tag_weights_from_favorites ::
  "lib \<Rightarrow> gallery list \<Rightarrow> feedback_stats option \<Rightarrow> (string \<times> real) list" where
  "compute_tag_weights_from_favorites L favorite_galleries feedback_stats =
     (if favorite_galleries = [] then []
      else
        let fs = (case feedback_stats of None \<Rightarrow> Map.empty | Some f \<Rightarrow> f);
            bw = base_weights L favorite_galleries;
            max_base_weight = max_values_or_one bw;
            bw' = scale_by max_base_weight bw;
            tag_weights = apply_feedback fs bw';
            max_weight = max_values_or_one tag_weights
        in if max_weight > 0 then scale_by max_weight tag_weights else tag_weights)"

definition get_base_weights_for_sync ::
  "lib \<Rightarrow> gallery list \<Rightarrow> (string \<times> real) list" where
  "get_base_weights_for_sync L favorite_galleries =
     (if favorite_galleries = [] then []
      else
        let bw = base_weights L favorite_galleries;
            max_base_weight = max_values_or_one bw
        in if max_base_weight > 0 then scale_by max_base_weight bw else bw)"

subsection \<open>Profile and similarity\<close>

text \<open>
  The vectorizer attribute is unset, assigned but not fitted (\<open>fit_transform\<close> raised), or
  fitted on the tag documents. \<open>user_vector\<close> is the column mean of the matrix of the
  documents it was computed from.
\<close>

datatype vectorizer = Unfitted | Fitted "string list"

record tag_analyzer =
  user_tag_weights :: "(string \<times> real) list"
  vectorizer :: "vectorizer option"
  user_vector :: "string list option"

text \<open>\<^verbatim>\<open>" ".join(tags)\<close>\<close>

fun join_space :: "string list \<Rightarrow> string" where
  "join_space [] = []"
| "join_space [t] = t"
| "join_space (t # ts) = t @ '' '' @ join_space ts"

text \<open>
  \<open>build_user_profile\<close>: \<open>compute_tag_weights_from_favorites\<close> stores its table in
  \<open>user_tag_weights\<close> unless it returned early on an empty list; then the TF-IDF fit,
  whose failure is logged and leaves the new vectorizer unfitted and the old vector in place.
\<close>

definition build_user_profile ::
  "lib \<Rightarrow> tag_analyzer \<Rightarrow> gallery list \<Rightarrow> feedback_stats option \<Rightarrow> tag_analyzer" where
  "build_user_profile L ta favorite_galleries feedback_stats =
     (let ta1 = (if favorite_galleries = [] then ta
                 else ta\<lparr>user_tag_weights :=
                          compute_tag_weights_from_favorites L favorite_galleries feedback_stats\<rparr>);
          tag_documents = map (\<lambda>g. join_space (gallery_tags L g)) favorite_galleries
      in if tag_documents = [] then ta1
         else if tfidf_fit_ok L tag_documents
              then ta1\<lparr>vectorizer := Some (Fitted tag_documents),
                       user_vector := Some tag_documents\<rparr>
              else ta1\<lparr>vectorizer := Some Unfitted\<rparr>)"

text \<open>\<open>self.user_tag_weights[tag]\<close> for a key known to be present, and the sum of the
  values.\<close>

definition weight_of :: "(string \<times> real) list \<Rightarrow> string \<Rightarrow> real" where
  "weight_of d k = (case map_of d k of Some w \<Rightarrow> w | None \<Rightarrow> 0)"

text \<open>\<open>set(candidate_tags) & set(weights.keys())\<close>, as a duplicate-free list.\<close>

definition matched :: "(string \<times> real) list \<Rightarrow> string list \<Rightarrow> string list" where
  "matched d candidate_tags = filter (\<lambda>t. t \<in> fst ` set d) (remdups candidate_tags)"

definition compute_tag_similarity :: "lib \<Rightarrow> tag_analyzer \<Rightarrow> string list \<Rightarrow> real" where
  "compute_tag_similarity L ta candidate_tags =
     (if user_tag_weights ta = [] \<or> candidate_tags = [] then 0
      else
        let intersection = matched (user_tag_weights ta) candidate_tags
        in if intersection = [] then 0
           else
             let total_user_weight = sum_list (map snd (user_tag_weights ta))
             in if total_user_weight \<le> 0 then 0
                else
                  let weighted_intersection =
                        sum_list (map (weight_of (user_tag_weights ta)) intersection);
                      jaccard_score = min 1 (weighted_intersection / total_user_weight)
                  in case (vectorizer ta, user_vector ta) of
                       (Some vz, Some uv) \<Rightarrow>
                         (case (case vz of
                                  Fitted docs \<Rightarrow> tfidf_cosine L docs uv (join_space candidate_tags)
                                | Unfitted \<Rightarrow> None) of
                            Some cosine_score \<Rightarrow> (6/10) * jaccard_score + (4/10) * cosine_score
                          | None \<Rightarrow> jaccard_score)
                     | _ \<Rightarrow> jaccard_score)"

text \<open>\<open>sorted(..., key=weight, reverse=True)\<close> is stable: ties keep the order of the
  argument.\<close>

definition explain_similarity :: "lib \<Rightarrow> tag_analyzer \<Rightarrow> string list \<Rightarrow> nat \<Rightarrow> string list" where
  "explain_similarity L ta candidate_tags top_n =
     (let matched_tags = set_order L (matched (user_tag_weights ta) candidate_tags);
          sorted_matches =
            sort_key (\<lambda>(tag, w). - w)
              (map (\<lambda>tag. (tag, weight_of (user_tag_weights ta) tag)) matched_tags)
      in map fst (take top_n sorted_matches))"

section \<open>Uploader analyzer\<close>

record uploader_analyzer =
  uploader_weights :: "(string \<times> real) list"
  uploader_gallery_count :: "(string \<times> nat) list"

text \<open>\<open>d[k] = v\<close> on an insertion-ordered dictionary.\<close>

fun dict_set :: "'k \<Rightarrow> 'v \<Rightarrow> ('k \<times> 'v) list \<Rightarrow> ('k \<times> 'v) list" where
  "dict_set k v [] = [(k, v)]"
| "dict_set k v ((k', v') # rest) =
     (if k = k' then (k', v) # rest else (k', v') # dict_set k v rest)"

text \<open>Characters \<open>str.strip()\<close> removes; a name made only of them counts as missing.\<close>

definition py_isspace :: "char \<Rightarrow> bool" where
  "py_isspace c = (c \<in> set [CHR 0x09, CHR 0x0A, CHR 0x0B, CHR 0x0C, CHR 0x0D,
                             CHR 0x1C, CHR 0x1D, CHR 0x1E, CHR 0x1F, CHR 0x20])"

definition uploader_counter :: "gallery list \<Rightarrow> (string \<times> nat) list" where
  "uploader_counter favorite_galleries =
     foldl (\<lambda>c g. case uploader g of
                     None \<Rightarrow> c
                   | Some u \<Rightarrow> if u \<noteq> [] \<and> (\<exists>ch \<in> set u. \<not> py_isspace ch)
                               then counter_incr u c else c)
           [] favorite_galleries"

definition frequency_weight :: "nat \<Rightarrow> nat \<Rightarrow> real" where
  "frequency_weight count total_favorites =
     (let fw = real count / real total_favorites
      in if count \<ge> 5 then fw * (15/10) else if count \<ge> 3 then fw * (12/10) else fw)"

text \<open>The tables are updated in place: entries of an earlier build stay unless
  overwritten.\<close>

definition build_uploader_profile :: "uploader_analyzer \<Rightarrow> gallery list \<Rightarrow> uploader_analyzer" where
  "build_uploader_profile ua favorite_galleries =
     (let total_favorites = length favorite_galleries
      in if total_favorites = 0 then ua
         else
           let ua1 = foldl (\<lambda>a (u, count).
                              a\<lparr>uploader_weights :=
                                   dict_set u (frequency_weight count total_favorites)
                                     (uploader_weights a),
                                 uploader_gallery_count :=
                                   dict_set u count (uploader_gallery_count a)\<rparr>)
                           ua (uploader_counter favorite_galleries);
               max_weight = max_values_or_one (uploader_weights ua1)
           in ua1\<lparr>uploader_weights := scale_by max_weight (uploader_weights ua1)\<rparr>)"

definition compute_uploader_score :: "uploader_analyzer \<Rightarrow> string \<Rightarrow> real" where
  "compute_uploader_score ua candidate_uploader =
     (if candidate_uploader = [] \<or> uploader_weights ua = [] then 0
      else case map_of (uploader_weights ua) candidate_uploader of
             Some w \<Rightarrow> w
           | None \<Rightarrow> 1/10)"

section \<open>Content scorer\<close>

record content_scorer =
  avg_rating :: real
  rating_std :: real
  avg_filecount :: int
  filecount_range :: "int \<times> int"
  preferred_languages :: "(string \<times> real) list"
  preferred_categories :: "(string \<times> real) list"

text \<open>\<open>np.mean\<close>, \<open>np.std\<close> (population standard deviation) and \<open>np.percentile\<close> (linear
  interpolation between the two nearest ranks) on a non-empty list; \<open>int(x)\<close> truncates
  towards zero.\<close>

definition np_mean :: "real list \<Rightarrow> real" where
  "np_mean xs = sum_list xs / real (length xs)"

definition np_std :: "real list \<Rightarrow> real" where
  "np_std xs = sqrt (np_mean (map (\<lambda>x. (x - np_mean xs)\<^sup>2) xs))"

definition np_percentile :: "real list \<Rightarrow> real \<Rightarrow> real" where
  "np_percentile xs q =
     (let a = sort xs;
          n = length a;
          idx = (q / 100) * real (n - 1);
          lo = nat \<lfloor>idx\<rfloor>;
          hi = min (lo + 1) (n - 1)
      in a ! lo + (idx - real lo) * (a ! hi - a ! lo))"

definition py_int :: "real \<Rightarrow> int" where
  "py_int x = (if x \<ge> 0 then \<lfloor>x\<rfloor> else \<lceil>x\<rceil>)"

text \<open>\<open>tag.startswith(p)\<close>\<close>

definition startswith :: "string \<Rightarrow> string \<Rightarrow> bool" where
  "startswith s p = (take (length p) s = p)"

definition language_counter :: "lib \<Rightarrow> gallery list \<Rightarrow> (string \<times> nat) list" where
  "language_counter L favorite_galleries =
     foldl (\<lambda>c g. foldl (\<lambda>c' tag. if startswith tag ''language:'' \<or> startswith tag ''lang:''
                                    then counter_incr tag c' else c')
                         c (gallery_tags L g))
           [] favorite_galleries"

definition build_quality_profile :: "lib \<Rightarrow> content_scorer \<Rightarrow> gallery list \<Rightarrow> content_scorer" where
  "build_quality_profile L cs favorite_galleries =
     (if favorite_galleries = [] then cs
      else
        let ratings = map rating favorite_galleries;
            filecounts = map (\<lambda>g. real_of_int (filecount g)) favorite_galleries;
            cs1 = cs\<lparr>avg_rating := np_mean ratings,
                     rating_std := (if length ratings > 1 then np_std ratings else 1/2),
                     avg_filecount := py_int (np_mean filecounts),
                     filecount_range := (py_int (np_percentile filecounts 10),
                                         py_int (np_percentile filecounts 90))\<rparr>;
            lc = language_counter L favorite_galleries;
            total = sum_list (map snd lc);
            cs2 = (if total > 0
                   then cs1\<lparr>preferred_languages :=
                              map (\<lambda>(lang, count). (lang, real count / real total)) lc\<rparr>
                   else cs1);
            category_counter = counter_update [] (map category favorite_galleries);
            total' = length favorite_galleries
        in cs2\<lparr>preferred_categories :=
                  map (\<lambda>(cat, count). (cat, real count / real total'))
                      (filter (\<lambda>(cat, count). cat \<noteq> []) category_counter)\<rparr>)"

text \<open>
  A score that may be NaN is a \<^typ>\<open>real option\<close>, with \<open>None\<close> for NaN.
  With \<open>rating_std = 0\<close> (all favorites rated alike) the Gaussian kernel divides by zero in
  floating point, on numpy scalars, which does not raise: the rating score is
  \<open>exp(-inf) = 0\<close> when the candidate's rating differs from the mean and NaN when it
  equals it, and the mean of a list holding NaN is NaN.
\<close>

definition compute_quality_score :: "content_scorer \<Rightarrow> gallery \<Rightarrow> real option" where
  "compute_quality_score cs g =
     (let rating_score =
            (if avg_rating cs > 0
             then
               let rating_diff = \<bar>rating g - avg_rating cs\<bar>
               in if rating_std cs = 0
                  then (if rating_diff = 0 then None else Some 0)
                  else Some (exp (- (rating_diff\<^sup>2) / (2 * (rating_std cs)\<^sup>2)))
             else Some (rating g / 5));
          filecount_score =
            (if fst (filecount_range cs) \<le> filecount g \<and> filecount g \<le> snd (filecount_range cs)
             then 1
             else if filecount g < fst (filecount_range cs) then 7/10
             else 8/10)
      in case rating_score of
           None \<Rightarrow> None
         | Some rs \<Rightarrow> Some (np_mean [rs, filecount_score]))"

definition compute_content_score :: "lib \<Rightarrow> content_scorer \<Rightarrow> gallery \<Rightarrow> real" where
  "compute_content_score L cs g =
     (let language_score =
            foldl (\<lambda>ls tag. case map_of (preferred_languages cs) tag of
                               Some w \<Rightarrow> max ls w
                             | None \<Rightarrow> ls)
                  0 (gallery_tags L g);
          category_score =
            (case map_of (preferred_categories cs) (category g) of
               Some w \<Rightarrow> w
             | None \<Rightarrow> 3/10)
      in np_mean [if language_score > 0 then language_score else 1/2, category_score])"

text \<open>
  Points in time are microseconds on the clock \<open>datetime.now()\<close> reads; \<open>now\<close> is that
  reading during the call. \<open>(now - posted).days\<close> is the floor of the difference in days.
\<close>

definition day_us :: int where
  "day_us = 86400000000"

text \<open>\<open>posted.replace("Z", "+00:00")\<close>\<close>

definition replace_Z :: "string \<Rightarrow> string" where
  "replace_Z s = concat (map (\<lambda>c. if c = CHR ''Z'' then ''+00:00'' else [c]) s)"

text \<open>The first half of \<open>compute_recency_score\<close>: the posting time, if the entry is there
  and (when it is a string) parses.\<close>

definition posted_at :: "lib \<Rightarrow> gallery \<Rightarrow> int option" where
  "posted_at L g =
     (case posted g of
        PostedNone \<Rightarrow> None
      | PostedStr s \<Rightarrow> (if s = [] then None else fromisoformat L (replace_Z s))
      | PostedTime t \<Rightarrow> Some t)"

definition compute_recency_score :: "lib \<Rightarrow> int \<Rightarrow> gallery \<Rightarrow> real" where
  "compute_recency_score L now g =
     (case posted_at L g of
        None \<Rightarrow> 1/2
      | Some t \<Rightarrow>
          let days_diff = (now - t) div day_us
          in if days_diff < 0 then 1
             else max (2/10) (min 1 (exp (- (2/1000) * real_of_int days_diff))))"

section \<open>Local database\<close>

text \<open>
  The SQLite tables the engine reads and writes. \<open>favorites\<close> and \<open>feedback\<close> have the
  gallery id as primary key, \<open>user_preferences\<close> the tag; \<open>recommendation_history\<close> is
  append-only. Columns no modelled function reads are left out. Rows are stamped with the
  clock reading \<open>now\<close>.
\<close>

record feedback_row =
  fb_rating :: int
  feedback_time :: int
  fb_source :: string

record details =
  d_tag_score :: real
  d_uploader_score :: real
  d_quality_score :: "real option"
  d_content_score :: real
  d_recency_score :: real
  d_total_score :: "real option"
  matched_tags :: "string list"

record recommendation_row =
  rec_gid :: int
  rec_score :: "real option"
  reason :: details
  recommended_time :: int
  notified :: bool

record pref_row =
  weight :: real
  positive_count :: nat
  negative_count :: nat
  updated_time :: int

record database =
  favorites :: "(int \<times> string) list"
  feedback :: "int \<rightharpoonup> feedback_row"
  recommendation_history :: "recommendation_row list"
  user_preferences :: "string \<rightharpoonup> pref_row"

definition get_all_favorites :: "database \<Rightarrow> (int \<times> string) list" where
  "get_all_favorites db = favorites db"

definition is_favorited :: "database \<Rightarrow> int \<Rightarrow> bool" where
  "is_favorited db g = (g \<in> fst ` set (favorites db))"

definition add_feedback :: "database \<Rightarrow> int \<Rightarrow> int \<Rightarrow> int \<Rightarrow> string \<Rightarrow> database" where
  "add_feedback db now g r source =
     db\<lparr>feedback := (feedback db)(g \<mapsto> \<lparr>fb_rating = r, feedback_time = now, fb_source = source\<rparr>)\<rparr>"

definition get_feedback :: "database \<Rightarrow> int \<Rightarrow> int option" where
  "get_feedback db g = map_option fb_rating (feedback db g)"

definition add_recommendation ::
  "database \<Rightarrow> int \<Rightarrow> int \<Rightarrow> real option \<Rightarrow> details \<Rightarrow> bool \<Rightarrow> database" where
  "add_recommendation db now g score r n =
     db\<lparr>recommendation_history :=
          recommendation_history db @
          [\<lparr>rec_gid = g, rec_score = score, reason = r, recommended_time = now, notified = n\<rparr>]\<rparr>"

text \<open>
  \<^verbatim>\<open>
  if expiry_days is not None:
      expiry_time = datetime.now() - timedelta(days=expiry_days)
      SELECT 1 FROM recommendation_history WHERE gid = ? AND recommended_time > ? LIMIT 1
  else:
      SELECT 1 FROM recommendation_history WHERE gid = ? LIMIT 1
  return cursor.fetchone() is not None
  \<close>
\<close>

definition is_recommended :: "database \<Rightarrow> int \<Rightarrow> int \<Rightarrow> int option \<Rightarrow> bool" where
  "is_recommended db now g expiry_days =
     (case expiry_days of
        Some d \<Rightarrow>
          (let expiry_time = now - d * day_us
           in \<exists>r \<in> set (recommendation_history db).
                rec_gid r = g \<and> recommended_time r > expiry_time)
      | None \<Rightarrow> (\<exists>r \<in> set (recommendation_history db). rec_gid r = g))"

definition update_tag_preference ::
  "database \<Rightarrow> int \<Rightarrow> string \<Rightarrow> real \<Rightarrow> nat \<Rightarrow> nat \<Rightarrow> database" where
  "update_tag_preference db now tag w pos neg =
     db\<lparr>user_preferences :=
          (user_preferences db)(tag \<mapsto>
             \<lparr>weight = w, positive_count = pos, negative_count = neg, updated_time = now\<rparr>)\<rparr>"

definition get_tag_preference :: "database \<Rightarrow> string \<Rightarrow> pref_row option" where
  "get_tag_preference db tag = user_preferences db tag"

definition get_all_tag_feedback_stats :: "database \<Rightarrow> feedback_stats" where
  "get_all_tag_feedback_stats db =
     (\<lambda>tag. map_option (\<lambda>r. (positive_count r, negative_count r)) (user_preferences db tag))"

text \<open>Only tags without feedback get the new base weight; their counters are kept.\<close>

definition sync_tag_preferences :: "database \<Rightarrow> int \<Rightarrow> (string \<times> real) list \<Rightarrow> database" where
  "sync_tag_preferences db now tag_weights =
     (if tag_weights = [] then db
      else foldl (\<lambda>d (tag, base_weight).
                    case user_preferences d tag of
                      Some row \<Rightarrow>
                        if positive_count row > 0 \<or> negative_count row > 0 then d
                        else update_tag_preference d now tag base_weight
                               (positive_count row) (negative_count row)
                    | None \<Rightarrow> update_tag_preference d now tag base_weight 0 0)
                 db tag_weights)"

section \<open>Feedback learner\<close>

definition update_tag_weight :: "database \<Rightarrow> int \<Rightarrow> string \<Rightarrow> bool \<Rightarrow> database" where
  "update_tag_weight db now tag is_positive =
     (let (base_weight, pos_count, neg_count) =
            (case get_tag_preference db tag of
               Some pref \<Rightarrow> (weight pref, positive_count pref, negative_count pref)
             | None \<Rightarrow> (1, 0, 0))
      in if is_positive
         then update_tag_preference db now tag base_weight (pos_count + 1) neg_count
         else update_tag_preference db now tag base_weight pos_count (neg_count + 1))"

text \<open>The uploader's feedback is only written to the debug log.\<close>

definition learn_from_feedback :: "lib \<Rightarrow> database \<Rightarrow> int \<Rightarrow> int \<Rightarrow> int \<Rightarrow> gallery \<Rightarrow> database" where
  "learn_from_feedback L db now g r gallery_info =
     (let is_positive = (r > 0)
      in foldl (\<lambda>d tag. update_tag_weight d now tag is_positive) db
               (gallery_tags L gallery_info))"

section \<open>Recommendation engine\<close>

text \<open>
  The content store is read-only and reached over the network: each query either raises
  (\<open>Inl\<close>) or returns rows. \<open>get_random_galleries\<close> samples; the function stands for the
  sample one call draws.
\<close>

datatype error = EhdbQueryFailed

record ehdb_database =
  get_gallery :: "int \<Rightarrow> error + gallery option"
  get_galleries_by_ids :: "int list \<Rightarrow> error + gallery list"
  get_new_galleries :: "int \<Rightarrow> int \<Rightarrow> error + gallery list"
  get_random_galleries :: "int \<Rightarrow> real \<Rightarrow> error + gallery list"
  search_similar_galleries :: "string list \<Rightarrow> string option \<Rightarrow> int \<Rightarrow> error + gallery list"

text \<open>The recommender configuration with the defaults of \<open>__init__\<close> resolved; the expiry
  window is looked up in the dictionary on every use and may be absent.\<close>

record recommender_config =
  tag_weight :: real
  uploader_weight :: real
  quality_weight :: real
  content_weight :: real
  recency_weight :: real
  min_score_threshold :: real
  immediate_push_threshold :: real
  recommendation_expiry_days :: "int option"

text \<open>What the engine's own logger records.\<close>

datatype log_event =
    InfoInitStart
  | WarnFavoritesEmpty
  | WarnNoFavoriteInfo
  | InfoInitDone
  | InfoRecommendNew int
  | InfoRecommendPool int
  | InfoRecommendSimilar int
  | WarnGalleryMissing int
  | InfoRecommendCompleted nat nat
  | InfoRecommendNone nat
  | WarnNoGalleryInfo int
  | InfoFeedbackDone int int

record engine =
  database :: database
  config :: recommender_config
  tag_analyzer :: tag_analyzer
  uploader_analyzer :: uploader_analyzer
  content_scorer :: content_scorer
  is_initialized :: bool
  engine_log :: "log_event list"

record recommendation =
  r_gallery :: gallery
  r_score :: "real option"
  r_details :: details
  r_source :: string

definition logged :: "log_event \<Rightarrow> engine \<Rightarrow> engine" where
  "logged ev E = E\<lparr>engine_log := engine_log E @ [ev]\<rparr>"

definition initialize :: "lib \<Rightarrow> ehdb_database \<Rightarrow> int \<Rightarrow> engine \<Rightarrow> error + engine" where
  "initialize L D now E =
     (let E0 = logged InfoInitStart E;
          favorite_gids = map fst (get_all_favorites (database E0))
      in if favorite_gids = []
         then Inr ((logged WarnFavoritesEmpty E0)\<lparr>is_initialized := True\<rparr>)
         else
           case get_galleries_by_ids D favorite_gids of
             Inl e \<Rightarrow> Inl e
           | Inr favorite_galleries \<Rightarrow>
               if favorite_galleries = []
               then Inr ((logged WarnNoFavoriteInfo E0)\<lparr>is_initialized := True\<rparr>)
               else
                 let feedback_stats = get_all_tag_feedback_stats (database E0);
                     E1 = E0\<lparr>tag_analyzer :=
                               build_user_profile L (tag_analyzer E0) favorite_galleries
                                 (Some feedback_stats),
                             uploader_analyzer :=
                               build_uploader_profile (uploader_analyzer E0) favorite_galleries,
                             content_scorer :=
                               build_quality_profile L (content_scorer E0) favorite_galleries\<rparr>;
                     base = get_base_weights_for_sync L favorite_galleries;
                     E2 = E1\<lparr>database := sync_tag_preferences (database E1) now base\<rparr>
                 in Inr (logged InfoInitDone (E2\<lparr>is_initialized := True\<rparr>)))"

text \<open>\<open>round(x, 3)\<close>: to the nearest thousandth, ties to the even one.\<close>

definition round3 :: "real \<Rightarrow> real" where
  "round3 x =
     (let y = x * 1000;
          f = \<lfloor>y\<rfloor>;
          r = (if y - of_int f < 1/2 then f
               else if y - of_int f > 1/2 then f + 1
               else if even f then f else f + 1)
      in of_int r / 1000)"

text \<open>\<open>compute_recommendation_score\<close> after its initialization check: the five scores,
  the weighted total and the detail dictionary. A NaN quality score makes the total NaN,
  and \<open>round\<close> of NaN is NaN.\<close>

definition score_gallery :: "lib \<Rightarrow> int \<Rightarrow> engine \<Rightarrow> gallery \<Rightarrow> real option \<times> details" where
  "score_gallery L now E' g =
     (let tgs = gallery_tags L g;
          tag_score = compute_tag_similarity L (tag_analyzer E') tgs;
          upl = (case uploader g of None \<Rightarrow> [] | Some u \<Rightarrow> u);
          uploader_score = compute_uploader_score (uploader_analyzer E') upl;
          quality_score = compute_quality_score (content_scorer E') g;
          content_score = compute_content_score L (content_scorer E') g;
          recency_score = compute_recency_score L now g;
          total_score =
            (case quality_score of
               None \<Rightarrow> None
             | Some q \<Rightarrow>
                 Some (tag_score * tag_weight (config E')
                       + uploader_score * uploader_weight (config E')
                       + q * quality_weight (config E')
                       + content_score * content_weight (config E')
                       + recency_score * recency_weight (config E')));
          dt = \<lparr>d_tag_score = round3 tag_score,
                d_uploader_score = round3 uploader_score,
                d_quality_score = map_option round3 quality_score,
                d_content_score = round3 content_score,
                d_recency_score = round3 recency_score,
                d_total_score = map_option round3 total_score,
                matched_tags = explain_similarity L (tag_analyzer E') tgs 5\<rparr>
      in (total_score, dt))"

text \<open>\<^verbatim>\<open>if not self._is_initialized: self.initialize()\<close>, then the scores. Only the
  initialization changes the engine.\<close>

definition compute_recommendation_score ::
  "lib \<Rightarrow> ehdb_database \<Rightarrow> int \<Rightarrow> engine \<Rightarrow> gallery
   \<Rightarrow> error + ((real option \<times> details) \<times> engine)" where
  "compute_recommendation_score L D now E g =
     (case (if \<not> is_initialized E then initialize L D now E else Inr E) of
        Inl e \<Rightarrow> Inl e
      | Inr E' \<Rightarrow> Inr (score_gallery L now E' g, E'))"

text \<open>\<open>score < threshold\<close> on floats: false when the score is NaN.\<close>

definition py_less :: "real option \<Rightarrow> real \<Rightarrow> bool" where
  "py_less score t = (case score of Some x \<Rightarrow> x < t | None \<Rightarrow> False)"

text \<open>
  The loop of \<open>_filter_and_score_galleries\<close>: the three \<open>continue\<close> filters in the order of
  the source, then the score and the threshold. \<open>acc\<close> is the list \<open>recommendations\<close>.
\<close>

fun filter_loop ::
  "lib \<Rightarrow> ehdb_database \<Rightarrow> int \<Rightarrow> string \<Rightarrow> engine \<Rightarrow> recommendation list \<Rightarrow> gallery list
   \<Rightarrow> error + (recommendation list \<times> engine)" where
  "filter_loop L D now source E acc [] = Inr (acc, E)"
| "filter_loop L D now source E acc (g # gs) =
     (if is_favorited (database E) (gid g) then filter_loop L D now source E acc gs
      else if get_feedback (database E) (gid g) \<noteq> None then filter_loop L D now source E acc gs
      else if source \<noteq> ''manual'' \<and>
              is_recommended (database E) now (gid g) (recommendation_expiry_days (config E))
           then filter_loop L D now source E acc gs
      else
        case compute_recommendation_score L D now E g of
          Inl e \<Rightarrow> Inl e
        | Inr ((score, dt), E') \<Rightarrow>
            if py_less score (min_score_threshold (config E'))
            then filter_loop L D now source E' acc gs
            else filter_loop L D now source E'
                   (acc @ [\<lparr>r_gallery = g, r_score = score, r_details = dt, r_source = source\<rparr>])
                   gs)"

text \<open>\<open>recommendations.sort(key=score, reverse=True)\<close> is stable: equal scores keep the
  candidate order. When a score is NaN the list is permuted as \<open>nan_order\<close> says (an
  answer that is no permutation of the positions is none of the routine's: the list then
  stays as it is).\<close>

definition sort_recommendations :: "lib \<Rightarrow> recommendation list \<Rightarrow> recommendation list" where
  "sort_recommendations L recs =
     (if \<forall>r \<in> set recs. r_score r \<noteq> None
      then sort_key (\<lambda>r. - the (r_score r)) recs
      else let order = nan_order L (map r_score recs)
           in if sort order = [0..<length recs] then map (\<lambda>i. recs ! i) order else recs)"

definition filter_and_score_galleries ::
  "lib \<Rightarrow> ehdb_database \<Rightarrow> int \<Rightarrow> engine \<Rightarrow> gallery list \<Rightarrow> string
   \<Rightarrow> error + (recommendation list \<times> engine)" where
  "filter_and_score_galleries L D now E galleries source =
     (case filter_loop L D now source E [] galleries of
        Inl e \<Rightarrow> Inl e
      | Inr (recs, E') \<Rightarrow>
          let recommendations = sort_recommendations L recs
          in Inr (recommendations,
                  logged (if recommendations \<noteq> []
                          then InfoRecommendCompleted (length galleries) (length recommendations)
                          else InfoRecommendNone (length galleries)) E'))"

definition recommend_new_galleries ::
  "lib \<Rightarrow> ehdb_database \<Rightarrow> int \<Rightarrow> engine \<Rightarrow> int \<Rightarrow> int \<Rightarrow> error + (recommendation list \<times> engine)" where
  "recommend_new_galleries L D now E since_timestamp limit =
     (let E0 = logged (InfoRecommendNew since_timestamp) E
      in case get_new_galleries D since_timestamp limit of
           Inl e \<Rightarrow> Inl e
         | Inr new_galleries \<Rightarrow> filter_and_score_galleries L D now E0 new_galleries ''new'')"

definition recommend_from_pool ::
  "lib \<Rightarrow> ehdb_database \<Rightarrow> int \<Rightarrow> engine \<Rightarrow> int \<Rightarrow> real \<Rightarrow> error + (recommendation list \<times> engine)" where
  "recommend_from_pool L D now E count min_rating =
     (let E0 = logged (InfoRecommendPool count) E
      in case get_random_galleries D count min_rating of
           Inl e \<Rightarrow> Inl e
         | Inr candidates \<Rightarrow> filter_and_score_galleries L D now E0 candidates ''old'')"

text \<open>\<open>xs[:limit]\<close>: a negative limit drops from the end.\<close>

definition py_take :: "int \<Rightarrow> 'a list \<Rightarrow> 'a list" where
  "py_take limit xs =
     (if limit \<ge> 0 then take (nat limit) xs else take (length xs - nat (- limit)) xs)"

definition recommend_similar ::
  "lib \<Rightarrow> ehdb_database \<Rightarrow> int \<Rightarrow> engine \<Rightarrow> int \<Rightarrow> int \<Rightarrow> error + (recommendation list \<times> engine)" where
  "recommend_similar L D now E g limit =
     (let E0 = logged (InfoRecommendSimilar g) E
      in case get_gallery D g of
           Inl e \<Rightarrow> Inl e
         | Inr None \<Rightarrow> Inr ([], logged (WarnGalleryMissing g) E0)
         | Inr (Some base_gallery) \<Rightarrow>
             (case search_similar_galleries D (gallery_tags L base_gallery)
                     (uploader base_gallery) (limit * 3) of
                Inl e \<Rightarrow> Inl e
              | Inr similar_galleries \<Rightarrow>
                  (case filter_and_score_galleries L D now E0
                          (filter (\<lambda>c. gid c \<noteq> g) similar_galleries) ''manual'' of
                     Inl e \<Rightarrow> Inl e
                   | Inr (recs, E') \<Rightarrow> Inr (py_take limit recs, E'))))"

text \<open>
  \<^verbatim>\<open>
  self.database.add_feedback(gid, rating, source)
  gallery = self.ehdb_database.get_gallery(gid)
  if not gallery:
      self.logger.warning(...); return
  self.feedback_learner.learn_from_feedback(gid, rating, gallery)
  self.initialize()
  self.logger.info(...)
  \<close>
\<close>

definition handle_feedback ::
  "lib \<Rightarrow> ehdb_database \<Rightarrow> int \<Rightarrow> engine \<Rightarrow> int \<Rightarrow> int \<Rightarrow> string \<Rightarrow> error + engine" where
  "handle_feedback L D now E g r source =
     (let E0 = E\<lparr>database := add_feedback (database E) now g r source\<rparr>
      in case get_gallery D g of
           Inl e \<Rightarrow> Inl e
         | Inr None \<Rightarrow> Inr (logged (WarnNoGalleryInfo g) E0)
         | Inr (Some gallery_info) \<Rightarrow>
             let E1 = E0\<lparr>database := learn_from_feedback L (database E0) now g r gallery_info\<rparr>
             in (case initialize L D now E1 of
                  Inl e \<Rightarrow> Inl e
                | Inr E2 \<Rightarrow> Inr (logged (InfoFeedbackDone g r) E2)))"

text \<open>\<open>score >= threshold\<close>: false when the score is NaN.\<close>

definition should_push_immediately :: "engine \<Rightarrow> real option \<Rightarrow> bool" where
  "should_push_immediately E score =
     (case score of Some x \<Rightarrow> x \<ge> immediate_push_threshold (config E) | None \<Rightarrow> False)"

section \<open>Favorites crawler\<close>

text \<open>
  One page of the listing as \<open>fetch_favorites_page\<close> returns it: the items
  (gallery id, token, favorited-at) and the cursor of the next page. The page itself comes
  from an HTTP request and pattern matching on the response, so the crawl loops take the
  page function as a parameter; a failed or empty fetch is the page without items and
  cursor. The loops return their result together with the cursors they requested, in
  order (the empty string for the first page).
\<close>

record page =
  items :: "(int \<times> string \<times> int) list"
  next_token :: "string option"

type_synonym fetcher = "string \<Rightarrow> string \<Rightarrow> page"

text \<open>\<open>if not result["next_token"]\<close>: missing or empty.\<close>

definition no_token :: "string option \<Rightarrow> bool" where
  "no_token t = (t = None \<or> t = Some [])"

function fetch_all_loop ::
  "fetcher \<Rightarrow> string \<Rightarrow> int \<Rightarrow> int \<Rightarrow> string \<Rightarrow> (int \<times> string \<times> int) list \<Rightarrow> string list
   \<Rightarrow> (int \<times> string \<times> int) list \<times> string list" where
  "fetch_all_loop fetch favcat max_pages page_num token all_galleries requested =
     (if page_num < max_pages
      then
        let result = fetch favcat token;
            requested' = requested @ [token]
        in if items result = [] then (all_galleries, requested')
           else
             let all_galleries' = all_galleries @ items result
             in if no_token (next_token result) then (all_galleries', requested')
                else fetch_all_loop fetch favcat max_pages (page_num + 1)
                       (the (next_token result)) all_galleries' requested'
      else (all_galleries, requested))"
  by pat_completeness auto
termination
  by (relation "measure (\<lambda>(fetch, favcat, max_pages, page_num, token, acc, req).
                           nat (max_pages - page_num))") auto

declare fetch_all_loop.simps [simp del]

definition fetch_all_favorites ::
  "fetcher \<Rightarrow> string \<Rightarrow> int \<Rightarrow> (int \<times> string \<times> int) list \<times> string list" where
  "fetch_all_favorites fetch favcat max_pages =
     fetch_all_loop fetch favcat max_pages 0 [] [] []"

function fetch_new_loop ::
  "fetcher \<Rightarrow> int set \<Rightarrow> string \<Rightarrow> int \<Rightarrow> int \<Rightarrow> string \<Rightarrow> (int \<times> string \<times> int) list
   \<Rightarrow> string list \<Rightarrow> (int \<times> string \<times> int) list \<times> string list" where
  "fetch_new_loop fetch known_gids favcat max_pages page_num token new_galleries requested =
     (if page_num < max_pages
      then
        let result = fetch favcat token;
            requested' = requested @ [token]
        in if items result = [] then (new_galleries, requested')
           else
             let page_new = filter (\<lambda>g. fst g \<notin> known_gids) (items result)
             in if page_new = [] then (new_galleries, requested')
                else
                  let new_galleries' = new_galleries @ page_new
                  in if no_token (next_token result) then (new_galleries', requested')
                     else fetch_new_loop fetch known_gids favcat max_pages (page_num + 1)
                            (the (next_token result)) new_galleries' requested'
      else (new_galleries, requested))"
  by pat_completeness auto
termination
  by (relation "measure (\<lambda>(fetch, known, favcat, max_pages, page_num, token, acc, req).
                           nat (max_pages - page_num))") auto

declare fetch_new_loop.simps [simp del]

definition fetch_new_favorites ::
  "fetcher \<Rightarrow> int set \<Rightarrow> string \<Rightarrow> int \<Rightarrow> (int \<times> string \<times> int) list \<times> string list" where
  "fetch_new_favorites fetch known_gids favcat max_pages =
     fetch_new_loop fetch known_gids favcat max_pages 0 [] [] []"

section \<open>Specification-side definitions\<close>

text \<open>
  The feedback multiplier as the specification words it: start at 1, add
  \<open>0.10 * 0.9^(i + negative_count)\<close> for each \<open>i < positive_count\<close>, subtract
  \<open>0.15 * 0.9^(i + positive_count)\<close> for each \<open>i < negative_count\<close>, clamp to \<open>[0, 2]\<close>.
\<close>

definition spec_feedback_multiplier :: "nat \<Rightarrow> nat \<Rightarrow> real" where
  "spec_feedback_multiplier p n =
     max 0 (min 2 (1 + (\<Sum>i<p. (1/10) * (9/10) ^ (i + n))
                     - (\<Sum>i<n. (15/100) * (9/10) ^ (i + p))))"

text \<open>The same sum before clamping.\<close>

definition raw_multiplier :: "nat \<Rightarrow> nat \<Rightarrow> real" where
  "raw_multiplier p n =
     1 + (\<Sum>i<p. (1/10) * (9/10) ^ (i + n)) - (\<Sum>i<n. (15/100) * (9/10) ^ (i + p))"

text \<open>All tags of the favorites, gallery after gallery, and the number of occurrences
  of a tag across them.\<close>

definition all_tags :: "lib \<Rightarrow> gallery list \<Rightarrow> string list" where
  "all_tags L favorite_galleries = concat (map (gallery_tags L) favorite_galleries)"

definition occurrences :: "lib \<Rightarrow> gallery list \<Rightarrow> string \<Rightarrow> nat" where
  "occurrences L favorite_galleries tag = count_list (all_tags L favorite_galleries) tag"

text \<open>The count a \<open>Counter\<close> holds for a key (0 when absent).\<close>

definition cnt :: "('k \<times> nat) list \<Rightarrow> 'k \<Rightarrow> nat" where
  "cnt c k = (case map_of c k of Some n \<Rightarrow> n | None \<Rightarrow> 0)"

text \<open>A counter as the loops leave it: one entry per key, every count positive.\<close>

definition counter_ok :: "('k \<times> nat) list \<Rightarrow> bool" where
  "counter_ok c = (distinct (map fst c) \<and> (\<forall>(k, n) \<in> set c. n > 0))"

section \<open>Concrete inputs\<close>

text \<open>A library in which every parse and every vectorizer call fails, and sets iterate
  in list order.\<close>

definition lib0 :: lib where
  "lib0 = \<lparr>json_loads = (\<lambda>_. None), fromisoformat = (\<lambda>_. None), tfidf_fit_ok = (\<lambda>_. False),
           tfidf_cosine = (\<lambda>_ _ _. None), set_order = (\<lambda>xs. xs), nan_order = (\<lambda>ks. [0..<length ks])\<rparr>"

definition gallery_elf :: gallery where
  "gallery_elf = \<lparr>gid = 1, tags = TagList [''female:elf'', ''language:japanese''],
                  uploader = None, rating = 45/10, filecount = 20, category = ''Doujinshi'',
                  posted = PostedNone\<rparr>"

definition gallery_notags :: gallery where
  "gallery_notags = \<lparr>gid = 2, tags = TagList [], uploader = None, rating = 4, filecount = 10,
                     category = ''Manga'', posted = PostedNone\<rparr>"

definition gallery_x :: gallery where
  "gallery_x = \<lparr>gid = 3, tags = TagList [''character:x''], uploader = None, rating = 4,
                filecount = 10, category = ''Manga'', posted = PostedNone\<rparr>"

text \<open>A listing of two pages: ids 1 and 2 on the first, id 3 on the second.\<close>

definition two_pages :: fetcher where
  "two_pages favcat token =
     (if token = [] then \<lparr>items = [(1, ''aaaaaaaaaa'', 0), (2, ''bbbbbbbbbb'', 0)],
                           next_token = Some ''2-100''\<rparr>
      else if token = ''2-100'' then \<lparr>items = [(3, ''cccccccccc'', 0)], next_token = None\<rparr>
      else \<lparr>items = [], next_token = None\<rparr>)"

section \<open>Predicates used in the statements about the engine\<close>

text \<open>What the candidate filters read stays as it is: favorites, feedback, the
  recommendation history and the configuration.\<close>

definition same_tables :: "engine \<Rightarrow> engine \<Rightarrow> bool" where
  "same_tables E E' =
     (favorites (database E') = favorites (database E)
      \<and> feedback (database E') = feedback (database E)
      \<and> recommendation_history (database E') = recommendation_history (database E)
      \<and> config E' = config E)"

text \<open>A candidate passes the three filters of the loop, for a query tagged \<open>source\<close> at
  clock reading \<open>now\<close>.\<close>

definition passes :: "string \<Rightarrow> int \<Rightarrow> engine \<Rightarrow> gallery \<Rightarrow> bool" where
  "passes source now E g =
     (\<not> is_favorited (database E) (gid g)
      \<and> get_feedback (database E) (gid g) = None
      \<and> \<not> (source \<noteq> ''manual'' \<and>
             is_recommended (database E) now (gid g) (recommendation_expiry_days (config E))))"

section \<open>A concrete engine\<close>

text \<open>The default weights, a low score threshold and a 30-day expiry window.\<close>

definition config0 :: recommender_config where
  "config0 = \<lparr>tag_weight = 4/10, uploader_weight = 2/10, quality_weight = 2/10,
              content_weight = 15/100, recency_weight = 5/100, min_score_threshold = 2/10,
              immediate_push_threshold = 85/100, recommendation_expiry_days = Some 30\<rparr>"

text \<open>The analyzers as their constructors leave them.\<close>

definition ta0 :: tag_analyzer where
  "ta0 = \<lparr>user_tag_weights = [], vectorizer = None, user_vector = None\<rparr>"

definition ua0 :: uploader_analyzer where
  "ua0 = \<lparr>uploader_weights = [], uploader_gallery_count = []\<rparr>"

definition cs0 :: content_scorer where
  "cs0 = \<lparr>avg_rating = 0, rating_std = 0, avg_filecount = 0, filecount_range = (0, 10000),
          preferred_languages = [], preferred_categories = []\<rparr>"

text \<open>Gallery 3 is a favorite, gallery 2 has a dislike, nothing was recommended yet.\<close>

definition db0 :: database where
  "db0 = \<lparr>favorites = [(3, ''cccccccccc'')],
          feedback = [2 \<mapsto> \<lparr>fb_rating = - 1, feedback_time = 0, fb_source = ''new''\<rparr>],
          recommendation_history = [],
          user_preferences = Map.empty\<rparr>"

definition engine_of :: "database \<Rightarrow> recommender_config \<Rightarrow> bool \<Rightarrow> engine" where
  "engine_of db cfg init =
     \<lparr>database = db, config = cfg, tag_analyzer = ta0, uploader_analyzer = ua0,
      content_scorer = cs0, is_initialized = init, engine_log = []\<rparr>"

text \<open>A content store that knows galleries 1, 2 and 3, resolves no favorite, and offers
  the three of them as candidates to every query.\<close>

definition ehdb0 :: ehdb_database where
  "ehdb0 =
     \<lparr>get_gallery = (\<lambda>g. Inr (if g = 1 then Some gallery_elf
                              else if g = 2 then Some gallery_notags
                              else if g = 3 then Some gallery_x else None)),
      get_galleries_by_ids = (\<lambda>_. Inr []),
      get_new_galleries = (\<lambda>_ _. Inr [gallery_elf, gallery_x, gallery_notags]),
      get_random_galleries = (\<lambda>_ _. Inr [gallery_elf, gallery_x, gallery_notags]),
      search_similar_galleries = (\<lambda>_ _ _. Inr [gallery_elf, gallery_x, gallery_notags])\<rparr>"

definition details_elf :: details where
  "details_elf = \<lparr>d_tag_score = 0, d_uploader_score = 0, d_quality_score = Some (95/100),
                  d_content_score = 4/10, d_recency_score = 1/2,
                  d_total_score = Some (275/1000), matched_tags = []\<rparr>"

text \<open>The engine is "plain" when it is initialized with the constructor's profiles and
  the configuration above, whatever its expiry window.\<close>

definition plain :: "engine \<Rightarrow> bool" where
  "plain E = (is_initialized E \<and> tag_analyzer E = ta0 \<and> uploader_analyzer E = ua0
              \<and> content_scorer E = cs0
              \<and> (config E)\<lparr>recommendation_expiry_days := Some 30\<rparr> = config0)"

text \<open>The database above after gallery 1 was recommended at time 0.\<close>

definition db1 :: database where
  "db1 = add_recommendation db0 0 1 (Some (275/1000)) details_elf False"

definition rec_elf :: "string \<Rightarrow> recommendation" where
  "rec_elf source = \<lparr>r_gallery = gallery_elf, r_score = Some (275/1000),
                      r_details = details_elf, r_source = source\<rparr>"

text \<open>Gallery 1 with a posting time (time 0).\<close>

definition gallery_posted :: gallery where
  "gallery_posted = gallery_elf\<lparr>posted := PostedTime 0\<rparr>"

section \<open>What a query returns, in closed form\<close>

text \<open>The recommendation the loop appends for a candidate scored on engine \<open>E\<close>, and the
  threshold test it passes (a NaN score is never below the threshold).\<close>

definition rec_of :: "lib \<Rightarrow> int \<Rightarrow> engine \<Rightarrow> string \<Rightarrow> gallery \<Rightarrow> recommendation" where
  "rec_of L now E source g =
     \<lparr>r_gallery = g, r_score = fst (score_gallery L now E g),
      r_details = snd (score_gallery L now E g), r_source = source\<rparr>"

definition kept :: "lib \<Rightarrow> int \<Rightarrow> engine \<Rightarrow> gallery \<Rightarrow> bool" where
  "kept L now E g =
     (\<not> py_less (fst (score_gallery L now E g)) (min_score_threshold (config E)))"

text \<open>A content scorer built from favorites that are all rated 4.5, an engine that has
  it, and what the loop appends for gallery 1 (rated 4.5) on that engine: the quality
  score and the total are NaN.\<close>

definition cs_same :: content_scorer where
  "cs_same = cs0\<lparr>avg_rating := 45/10, rating_std := 0\<rparr>"

definition engine_same :: engine where
  "engine_same = (engine_of db0 config0 True)\<lparr>content_scorer := cs_same\<rparr>"

definition rec_nan :: "string \<Rightarrow> recommendation" where
  "rec_nan source =
     \<lparr>r_gallery = gallery_elf, r_score = None,
      r_details = details_elf\<lparr>d_quality_score := None, d_total_score := None\<rparr>,
      r_source = source\<rparr>"

section \<open>Properties of the feedback multiplier\<close>

lemma foldl_add_sum:
  "foldl (\<lambda>m i. m + f i) a [0..<n] = a + (\<Sum>i<n. f i)" for f :: "nat \<Rightarrow> real"
  by (induction n) simp_all

lemma foldl_sub_sum:
  "foldl (\<lambda>m i. m - f i) a [0..<n] = a - (\<Sum>i<n. f i)" for f :: "nat \<Rightarrow> real"
  by (induction n) simp_all

lemma multiplier_is_spec:
  "compute_feedback_multiplier p n = spec_feedback_multiplier p n"
  by (simp add: compute_feedback_multiplier_def spec_feedback_multiplier_def
        foldl_add_sum foldl_sub_sum Let_def)

text \<open>
  C4. The loops of \<open>_compute_feedback_multiplier\<close> compute the clamped sum of the
  specification; one like and no dislike give 1.10, and the weight loop of
  \<open>compute_tag_weights_from_favorites\<close> turns a base weight of 0.5 for such a tag into
  0.55 (the value before the second normalization).
\<close>

theorem feedback_multiplier_iterative:
  "compute_feedback_multiplier p n = spec_feedback_multiplier p n
   \<and> compute_feedback_multiplier 1 0 = 11/10
   \<and> apply_feedback [''character:x'' \<mapsto> (1, 0)] [(''character:x'', 1/2)]
       = [(''character:x'', 55/100)]"
proof -
  have m: "compute_feedback_multiplier 1 0 = 11/10"
    by (simp add: compute_feedback_multiplier_def)
  have ap: "apply_feedback [''character:x'' \<mapsto> (1, 0)] [(''character:x'', 1/2)]
          = [(''character:x'', 55/100)]"
    by (simp add: apply_feedback_def stats_of_def compute_feedback_multiplier_def)
  show ?thesis using multiplier_is_spec[of p n] m ap by blast
qed

text \<open>The sums in closed form: with \<open>a = 0.9^p\<close> and \<open>b = 0.9^n\<close> the unclamped value is
  \<open>1 + b (1 - a) - 1.5 a (1 - b)\<close>.\<close>

lemma multiplier_raw: "compute_feedback_multiplier p n = max 0 (min 2 (raw_multiplier p n))"
  by (simp add: multiplier_is_spec spec_feedback_multiplier_def raw_multiplier_def)

lemma geo_pos: "(\<Sum>i<p. (1/10) * (9/10) ^ (i + n)) = (9/10::real)^n * (1 - (9/10)^p)"
  by (induction p) (simp_all add: algebra_simps power_add)

lemma geo_neg: "(\<Sum>i<n. (15/100) * (9/10) ^ (i + p)) = (3/2) * (9/10::real)^p * (1 - (9/10)^n)"
  by (induction n) (simp_all add: algebra_simps power_add)

lemma raw_closed:
  "raw_multiplier p n = 1 + (9/10)^n * (1 - (9/10)^p) - (3/2) * (9/10)^p * (1 - (9/10)^n)"
  unfolding raw_multiplier_def geo_pos geo_neg by simp

lemma raw_mono_pos_Suc: "raw_multiplier p n \<le> raw_multiplier (Suc p) n"
proof -
  define a :: real where "a = (9/10)^p"
  define b :: real where "b = (9/10)^n"
  have a: "0 \<le> a" and b: "0 \<le> b" "b \<le> 1" by (simp_all add: a_def b_def power_le_one)
  have "raw_multiplier (Suc p) n = 1 + b * (1 - (9/10) * a) - (3/2) * ((9/10) * a) * (1 - b)"
    and "raw_multiplier p n = 1 + b * (1 - a) - (3/2) * a * (1 - b)"
    unfolding raw_closed a_def b_def by simp_all
  then have "raw_multiplier (Suc p) n - raw_multiplier p n
               = (1/10) * a * b + (15/100) * a * (1 - b)"
    by (simp only:) (simp add: field_simps)
  moreover have "0 \<le> (1/10) * a * b + (15/100) * a * (1 - b)" using a b by simp
  ultimately show ?thesis by linarith
qed

lemma raw_mono_neg_Suc: "raw_multiplier p (Suc n) \<le> raw_multiplier p n"
proof -
  define a :: real where "a = (9/10)^p"
  define b :: real where "b = (9/10)^n"
  have a: "0 \<le> a" and b: "0 \<le> b" by (simp_all add: a_def b_def)
  have "raw_multiplier p (Suc n) = 1 + ((9/10) * b) * (1 - a) - (3/2) * a * (1 - (9/10) * b)"
    and "raw_multiplier p n = 1 + b * (1 - a) - (3/2) * a * (1 - b)"
    unfolding raw_closed a_def b_def by simp_all
  then have "raw_multiplier p n - raw_multiplier p (Suc n) = (1/10) * b + (1/20) * a * b"
    by (simp only:) (simp add: field_simps)
  moreover have "0 \<le> (1/10) * b + (1/20) * a * b" using a b by simp
  ultimately show ?thesis by linarith
qed

lemma raw_mono_pos: "p \<le> p' \<Longrightarrow> raw_multiplier p n \<le> raw_multiplier p' n"
  by (rule lift_Suc_mono_le[of "\<lambda>p. raw_multiplier p n"]) (simp_all add: raw_mono_pos_Suc)

lemma raw_mono_neg: "n \<le> n' \<Longrightarrow> raw_multiplier p n' \<le> raw_multiplier p n"
  by (rule lift_Suc_antimono_le[of "\<lambda>n. raw_multiplier p n"]) (simp_all add: raw_mono_neg_Suc)

text \<open>
  C5. For all counts the multiplier lies in \<open>[0, 2]\<close>; more likes never lower it and more
  dislikes never raise it.
\<close>

theorem feedback_multiplier_bounded_monotone:
  "0 \<le> compute_feedback_multiplier p n \<and> compute_feedback_multiplier p n \<le> 2
   \<and> (p \<le> p' \<longrightarrow> compute_feedback_multiplier p n \<le> compute_feedback_multiplier p' n)
   \<and> (n \<le> n' \<longrightarrow> compute_feedback_multiplier p n' \<le> compute_feedback_multiplier p n)"
proof -
  have 1: "0 \<le> compute_feedback_multiplier p n \<and> compute_feedback_multiplier p n \<le> 2"
    by (simp add: multiplier_raw)
  have 2: "compute_feedback_multiplier p n \<le> compute_feedback_multiplier p' n" if "p \<le> p'"
    using raw_mono_pos[OF that, of n] by (auto simp: multiplier_raw)
  have 3: "compute_feedback_multiplier p n' \<le> compute_feedback_multiplier p n" if "n \<le> n'"
    using raw_mono_neg[OF that, of p] by (auto simp: multiplier_raw)
  show ?thesis using 1 2 3 by blast
qed

theorem feedback_multiplier_bounded_monotone_witness:
  "(3::nat) \<le> 4 \<and> (2::nat) \<le> 5
   \<and> 0 \<le> compute_feedback_multiplier 3 2 \<and> compute_feedback_multiplier 3 2 \<le> 2
   \<and> compute_feedback_multiplier 3 2 \<le> compute_feedback_multiplier 4 2
   \<and> compute_feedback_multiplier 3 5 \<le> compute_feedback_multiplier 3 2"
  using feedback_multiplier_bounded_monotone[of 3 2 4 5] by simp

section \<open>Properties of the tag weights\<close>

subsection \<open>What the counters hold\<close>

lemma counter_incr_keys: "set (map fst (counter_incr k c)) = insert k (set (map fst c))"
  by (induction k c rule: counter_incr.induct) (simp_all add: insert_commute)

lemma counter_incr_keys_img: "fst ` set (counter_incr k c) = insert k (fst ` set c)"
  using counter_incr_keys[of k c] by simp

lemma counter_incr_distinct: "distinct (map fst c) \<Longrightarrow> distinct (map fst (counter_incr k c))"
proof (induction c)
  case Nil
  then show ?case by simp
next
  case (Cons a c)
  obtain k' n where a: "a = (k', n)" by (cases a)
  show ?case using Cons counter_incr_keys[of k c] by (auto simp: a)
qed

lemma counter_incr_map_of:
  "map_of (counter_incr k c) k' = (if k' = k then Some (cnt c k + 1) else map_of c k')"
  by (induction c) (auto simp: cnt_def)

lemma counter_incr_cnt: "cnt (counter_incr k c) k' = cnt c k' + (if k' = k then 1 else 0)"
  by (simp add: cnt_def counter_incr_map_of)

lemma counter_incr_pos:
  "\<forall>(k, n) \<in> set c. n > 0 \<Longrightarrow> \<forall>(k', n) \<in> set (counter_incr k c). n > 0"
  by (induction c) (auto split: if_splits)

lemma counter_incr_ok: "counter_ok c \<Longrightarrow> counter_ok (counter_incr k c)"
  using counter_incr_distinct[of c k] counter_incr_pos[of c k] by (simp add: counter_ok_def)

lemma counter_update_props:
  "counter_ok c \<Longrightarrow>
   counter_ok (counter_update c ks)
   \<and> set (map fst (counter_update c ks)) = set (map fst c) \<union> set ks
   \<and> (\<forall>k. cnt (counter_update c ks) k = cnt c k + count_list ks k)"
proof (induction ks arbitrary: c)
  case Nil
  then show ?case by (simp add: counter_update_def)
next
  case (Cons a ks)
  have "counter_update c (a # ks) = counter_update (counter_incr a c) ks"
    by (simp add: counter_update_def)
  then show ?case using Cons.IH[OF counter_incr_ok[OF Cons.prems, of a]]
    by (auto simp: counter_incr_keys_img counter_incr_cnt)
qed

lemma tag_counter_gen:
  "counter_ok c \<Longrightarrow>
   counter_ok (foldl (\<lambda>c g. counter_update c (gallery_tags L g)) c gs)
   \<and> set (map fst (foldl (\<lambda>c g. counter_update c (gallery_tags L g)) c gs))
       = set (map fst c) \<union> set (all_tags L gs)
   \<and> (\<forall>k. cnt (foldl (\<lambda>c g. counter_update c (gallery_tags L g)) c gs) k
            = cnt c k + count_list (all_tags L gs) k)"
proof (induction gs arbitrary: c)
  case Nil
  then show ?case by (simp add: all_tags_def)
next
  case (Cons g gs)
  note u = counter_update_props[OF Cons.prems, of "gallery_tags L g"]
  from u have ok: "counter_ok (counter_update c (gallery_tags L g))" by blast
  show ?case using Cons.IH[OF ok] u
    by (auto simp: all_tags_def)
qed

lemma tag_counter_props:
  "counter_ok (tag_counter L gs)
   \<and> set (map fst (tag_counter L gs)) = set (all_tags L gs)
   \<and> (\<forall>k. cnt (tag_counter L gs) k = occurrences L gs k)"
  using tag_counter_gen[of "[]" L gs]
  by (simp add: tag_counter_def counter_ok_def cnt_def occurrences_def)

lemma map_of_cnt:
  "counter_ok c \<Longrightarrow> k \<in> set (map fst c) \<Longrightarrow> map_of c k = Some (cnt c k)"
  by (auto simp: cnt_def counter_ok_def split: option.splits dest: weak_map_of_SomeI)

lemma map_of_map_val:
  "map_of (map (\<lambda>(k, v). (k, f k v)) c) k = map_option (f k) (map_of c k)"
  by (induction c) auto

lemma base_weights_lookup:
  assumes "tag \<in> set (all_tags L favs)"
  shows "map_of (base_weights L favs) tag
         = Some (real (occurrences L favs tag) / real (length favs) * ns_weight tag)"
proof -
  have "map_of (tag_counter L favs) tag = Some (occurrences L favs tag)"
    using tag_counter_props[of L favs] assms map_of_cnt[of "tag_counter L favs" tag] by auto
  then show ?thesis
    unfolding base_weights_def by (simp only: map_of_map_val option.map)
qed

subsection \<open>Namespaces\<close>

lemma ns_weight_no_colon: "CHR '':'' \<notin> set t \<Longrightarrow> ns_weight t = 8/10"
  by (simp add: ns_weight_def namespace_def NAMESPACE_WEIGHTS_def)

lemma namespace_prefix: "CHR '':'' \<notin> set ns \<Longrightarrow> namespace (ns @ CHR '':'' # v) = ns"
proof -
  assume a: "CHR '':'' \<notin> set ns"
  then have "takeWhile (\<lambda>c. c \<noteq> CHR '':'') (ns @ CHR '':'' # v) = ns"
    by (induction ns) auto
  then show ?thesis by (simp add: namespace_def)
qed

lemma ns_weight_listed:
  "ns_weight (''female:'' @ v) = 12/10" "ns_weight (''male:'' @ v) = 12/10"
  "ns_weight (''language:'' @ v) = 11/10"
  "ns_weight (''artist:'' @ v) = 9/10" "ns_weight (''group:'' @ v) = 9/10"
  "ns_weight (''cosplayer:'' @ v) = 7/10" "ns_weight (''reclass:'' @ v) = 5/10"
  by (simp_all add: ns_weight_def namespace_def NAMESPACE_WEIGHTS_def)

lemma elf_table:
  "tags g = TagList [''female:elf'', ''language:japanese''] \<Longrightarrow>
   compute_tag_weights_from_favorites L [g] None
     = [(''female:elf'', 1), (''language:japanese'', 11/12)]"
  by (simp add: compute_tag_weights_from_favorites_def base_weights_def tag_counter_def
      gallery_tags_def counter_update_def max_values_or_one_def scale_by_def apply_feedback_def
      stats_of_def compute_feedback_multiplier_def Let_def ns_weight_def namespace_def
      NAMESPACE_WEIGHTS_def)

text \<open>
  C6. The base weight the first loop stores for a tag is its number of occurrences across
  the favorites, divided by the number of favorites, times the namespace multiplier; the
  namespace is the text before the first colon; a tag without colon weighs 0.8, and the
  listed namespaces weigh as the specification says. For one favorite tagged
  \<open>female:elf\<close> and \<open>language:japanese\<close> and no feedback, \<open>female:elf\<close> gets weight 1, the
  maximum of the table.
\<close>

theorem base_weight_formula:
  "(tag \<in> set (all_tags L favs) \<longrightarrow>
      map_of (base_weights L favs) tag
        = Some (real (occurrences L favs tag) / real (length favs) * ns_weight tag))
   \<and> (CHR '':'' \<notin> set ns \<longrightarrow> namespace (ns @ CHR '':'' # v) = ns)
   \<and> (CHR '':'' \<notin> set t \<longrightarrow> namespace t = ''other'' \<and> ns_weight t = 8/10)
   \<and> ns_weight (''female:'' @ v) = 12/10 \<and> ns_weight (''male:'' @ v) = 12/10
   \<and> ns_weight (''language:'' @ v) = 11/10
   \<and> ns_weight (''artist:'' @ v) = 9/10 \<and> ns_weight (''group:'' @ v) = 9/10
   \<and> ns_weight (''cosplayer:'' @ v) = 7/10 \<and> ns_weight (''reclass:'' @ v) = 5/10
   \<and> (tags g = TagList [''female:elf'', ''language:japanese''] \<longrightarrow>
        map_of (compute_tag_weights_from_favorites L [g] None) ''female:elf'' = Some 1
        \<and> max_values_or_one (compute_tag_weights_from_favorites L [g] None) = 1)"
proof -
  have 1: "tag \<in> set (all_tags L favs) \<longrightarrow>
      map_of (base_weights L favs) tag
        = Some (real (occurrences L favs tag) / real (length favs) * ns_weight tag)"
    using base_weights_lookup by blast
  have 2: "CHR '':'' \<notin> set ns \<longrightarrow> namespace (ns @ CHR '':'' # v) = ns"
    using namespace_prefix by blast
  have 3: "CHR '':'' \<notin> set t \<longrightarrow> namespace t = ''other'' \<and> ns_weight t = 8/10"
    using ns_weight_no_colon[of t] by (simp add: namespace_def)
  have 4: "tags g = TagList [''female:elf'', ''language:japanese''] \<longrightarrow>
        map_of (compute_tag_weights_from_favorites L [g] None) ''female:elf'' = Some 1
        \<and> max_values_or_one (compute_tag_weights_from_favorites L [g] None) = 1"
    by (auto simp: elf_table max_values_or_one_def)
  show ?thesis
    using 1 2 3 4 ns_weight_listed[of v] by blast
qed

theorem base_weight_formula_witness:
  "''female:elf'' \<in> set (all_tags lib0 [gallery_elf])
   \<and> map_of (base_weights lib0 [gallery_elf]) ''female:elf'' = Some (12/10)
   \<and> CHR '':'' \<notin> set ''female'' \<and> namespace ''female:elf'' = ''female''
   \<and> CHR '':'' \<notin> set ''sketch'' \<and> ns_weight ''sketch'' = 8/10
   \<and> tags gallery_elf = TagList [''female:elf'', ''language:japanese'']
   \<and> map_of (compute_tag_weights_from_favorites lib0 [gallery_elf] None) ''female:elf'' = Some 1
   \<and> max_values_or_one (compute_tag_weights_from_favorites lib0 [gallery_elf] None) = 1"
proof -
  have a: "''female:elf'' \<in> set (all_tags lib0 [gallery_elf])"
    by (simp add: all_tags_def gallery_tags_def gallery_elf_def)
  have b: "occurrences lib0 [gallery_elf] ''female:elf'' = 1"
    by (simp add: occurrences_def all_tags_def gallery_tags_def gallery_elf_def)
  have c: "tags gallery_elf = TagList [''female:elf'', ''language:japanese'']"
    by (simp add: gallery_elf_def)
  have d: "CHR '':'' \<notin> set ''female''" "CHR '':'' \<notin> set ''sketch''" by simp_all
  show ?thesis
    using base_weight_formula[of "''female:elf''" lib0 "[gallery_elf]" "''female''" "''elf''"
            "''sketch''" gallery_elf] a b c d
    by simp
qed

subsection \<open>Normalization\<close>

lemma foldl_max_Max: "foldl max x xs = Max (set (x # xs))" for x :: real
proof (induction xs arbitrary: x)
  case Nil
  then show ?case by simp
next
  case (Cons a xs)
  have "foldl max x (a # xs) = Max (set (max x a # xs))" using Cons by simp
  also have "\<dots> = Max (set (x # a # xs))"
    by (cases "xs = []") (simp_all add: max.assoc)
  finally show ?case .
qed

lemma max_values_Max: "d \<noteq> [] \<Longrightarrow> max_values_or_one d = Max (snd ` set d)"
  by (cases d) (simp_all add: max_values_or_one_def foldl_max_Max)

lemma scale_by_Nil_iff: "scale_by m d = [] \<longleftrightarrow> d = []"
  by (simp add: scale_by_def)

lemma scale_by_values: "snd ` set (scale_by m d) = (\<lambda>v. v / m) ` snd ` set d"
  by (force simp: scale_by_def image_iff)

lemma scale_by_Max:
  assumes "d \<noteq> []" and "Max (snd ` set d) > 0"
  shows "Max (snd ` set (scale_by (Max (snd ` set d)) d)) = 1"
proof (rule Max_eqI)
  let ?m = "Max (snd ` set d)"
  show "finite (snd ` set (scale_by ?m d))" by simp
  have fin: "finite (snd ` set d)" and ne: "snd ` set d \<noteq> {}" using assms by simp_all
  show "y \<le> 1" if "y \<in> snd ` set (scale_by ?m d)" for y
  proof -
    from that obtain v where v: "v \<in> snd ` set d" "y = v / ?m"
      unfolding scale_by_values by blast
    then have "v \<le> ?m" using fin by simp
    then show ?thesis using assms(2) v by simp
  qed
  have "?m \<in> snd ` set d" using Max_in[OF fin ne] .
  then have "?m / ?m \<in> snd ` set (scale_by ?m d)" unfolding scale_by_values by blast
  then show "1 \<in> snd ` set (scale_by ?m d)" using assms(2) by simp
qed

lemma ns_weight_pos: "ns_weight t > 0"
proof (cases "map_of NAMESPACE_WEIGHTS (namespace t)")
  case None
  then show ?thesis by (simp add: ns_weight_def)
next
  case (Some w)
  then have "(namespace t, w) \<in> set NAMESPACE_WEIGHTS" by (rule map_of_SomeD)
  then have "w > 0" by (auto simp: NAMESPACE_WEIGHTS_def)
  then show ?thesis using Some by (simp add: ns_weight_def)
qed

lemma base_weights_Nil_iff: "base_weights L favs = [] \<longleftrightarrow> all_tags L favs = []"
proof -
  have "set (map fst (tag_counter L favs)) = set (all_tags L favs)"
    using tag_counter_props[of L favs] by blast
  then have "tag_counter L favs = [] \<longleftrightarrow> all_tags L favs = []"
    by (metis list.map_disc_iff set_empty)
  then show ?thesis by (simp add: base_weights_def)
qed

lemma base_weights_pos:
  assumes "favs \<noteq> []" and "w \<in> snd ` set (base_weights L favs)"
  shows "w > 0"
proof -
  from assms(2) obtain tag n where tn: "(tag, n) \<in> set (tag_counter L favs)"
    and w: "w = real n / real (length favs) * ns_weight tag"
    by (auto simp: base_weights_def)
  have "n > 0" using tag_counter_props[of L favs] tn by (auto simp: counter_ok_def)
  then show ?thesis using w assms(1) ns_weight_pos[of tag] by simp
qed

lemma base_weights_Max_pos:
  assumes "favs \<noteq> []" and "base_weights L favs \<noteq> []"
  shows "Max (snd ` set (base_weights L favs)) > 0"
proof -
  have "Max (snd ` set (base_weights L favs)) \<in> snd ` set (base_weights L favs)"
    using assms(2) by (intro Max_in) simp_all
  then show ?thesis using base_weights_pos[OF assms(1)] by blast
qed

lemma base_sync_Nil_iff: "get_base_weights_for_sync L favs = [] \<longleftrightarrow> all_tags L favs = []"
proof (cases "favs = []")
  case True
  then show ?thesis by (simp add: get_base_weights_for_sync_def all_tags_def)
next
  case False
  then show ?thesis
    by (simp add: get_base_weights_for_sync_def Let_def scale_by_Nil_iff base_weights_Nil_iff)
qed

lemma base_sync_Max:
  assumes "get_base_weights_for_sync L favs \<noteq> []"
  shows "Max (snd ` set (get_base_weights_for_sync L favs)) = 1"
proof -
  have favs: "favs \<noteq> []" using assms by (auto simp: get_base_weights_for_sync_def)
  have ne: "base_weights L favs \<noteq> []"
    using assms base_sync_Nil_iff base_weights_Nil_iff by blast
  have pos: "Max (snd ` set (base_weights L favs)) > 0"
    using base_weights_Max_pos[OF favs ne] .
  have "get_base_weights_for_sync L favs
          = scale_by (Max (snd ` set (base_weights L favs))) (base_weights L favs)"
    using favs ne pos by (simp add: get_base_weights_for_sync_def Let_def max_values_Max)
  then show ?thesis using scale_by_Max[OF ne pos] by simp
qed

lemma apply_feedback_Nil_iff: "apply_feedback fs d = [] \<longleftrightarrow> d = []"
  by (simp add: apply_feedback_def)

text \<open>The table before the second normalization.\<close>

lemma tag_weights_unfold:
  "favs \<noteq> [] \<Longrightarrow>
   compute_tag_weights_from_favorites L favs fso =
     (let tw = apply_feedback (case fso of None \<Rightarrow> Map.empty | Some f \<Rightarrow> f)
                 (scale_by (max_values_or_one (base_weights L favs)) (base_weights L favs))
      in if max_values_or_one tw > 0 then scale_by (max_values_or_one tw) tw else tw)"
  by (simp add: compute_tag_weights_from_favorites_def Let_def)

lemma tag_weights_Nil_iff:
  "compute_tag_weights_from_favorites L favs fso = [] \<longleftrightarrow> all_tags L favs = []"
proof (cases "favs = []")
  case True
  then show ?thesis by (simp add: compute_tag_weights_from_favorites_def all_tags_def)
next
  case False
  then show ?thesis
    by (simp add: tag_weights_unfold Let_def scale_by_Nil_iff apply_feedback_Nil_iff
          base_weights_Nil_iff)
qed

lemma tag_weights_Max:
  assumes "\<exists>w \<in> snd ` set (compute_tag_weights_from_favorites L favs fso). w > 0"
  shows "Max (snd ` set (compute_tag_weights_from_favorites L favs fso)) = 1"
proof -
  have favs: "favs \<noteq> []" using assms by (auto simp: compute_tag_weights_from_favorites_def)
  define tw where "tw = apply_feedback (case fso of None \<Rightarrow> Map.empty | Some f \<Rightarrow> f)
                 (scale_by (max_values_or_one (base_weights L favs)) (base_weights L favs))"
  have T: "compute_tag_weights_from_favorites L favs fso
             = (if max_values_or_one tw > 0 then scale_by (max_values_or_one tw) tw else tw)"
    using tag_weights_unfold[OF favs] by (simp add: tw_def Let_def)
  have ne: "tw \<noteq> []"
  proof
    assume "tw = []"
    then have "compute_tag_weights_from_favorites L favs fso = []"
      using T by (simp add: scale_by_def)
    then show False using assms by simp
  qed
  then have m: "max_values_or_one tw = Max (snd ` set tw)" by (rule max_values_Max)
  show ?thesis
  proof (cases "Max (snd ` set tw) > 0")
    case True
    then show ?thesis using T m scale_by_Max[OF ne True] by simp
  next
    case False
    then have Teq: "compute_tag_weights_from_favorites L favs fso = tw" using T m by simp
    from assms obtain w where w: "w \<in> snd ` set tw" "w > 0" unfolding Teq by blast
    then have "w \<le> Max (snd ` set tw)" by simp
    then have False using False w(2) by linarith
    then show ?thesis ..
  qed
qed

text \<open>
  C3 as the code has it. A favorites list whose galleries carry no tag gives the empty
  table, and a table whose tags all have a feedback multiplier of 0 is left unscaled with
  maximum 0. The weight table is empty exactly when no favorite carries a tag; whenever it
  holds a positive weight its maximum is 1. The base-weight table is empty exactly when no
  favorite carries a tag, and otherwise its maximum is 1.
\<close>

theorem tag_weights_normalized:
  "((\<exists>w \<in> snd ` set (compute_tag_weights_from_favorites L favs fso). w > 0) \<longrightarrow>
       Max (snd ` set (compute_tag_weights_from_favorites L favs fso)) = 1)
   \<and> (get_base_weights_for_sync L favs \<noteq> [] \<longrightarrow>
       Max (snd ` set (get_base_weights_for_sync L favs)) = 1)
   \<and> (compute_tag_weights_from_favorites L favs fso = [] \<longleftrightarrow> all_tags L favs = [])
   \<and> (get_base_weights_for_sync L favs = [] \<longleftrightarrow> all_tags L favs = [])"
  using tag_weights_Max[of L favs fso] base_sync_Max[of L favs]
    tag_weights_Nil_iff[of L favs fso] base_sync_Nil_iff[of L favs]
  by blast

theorem tag_weights_normalized_witness:
  "(\<exists>w \<in> snd ` set (compute_tag_weights_from_favorites lib0 [gallery_elf] None). w > 0)
   \<and> Max (snd ` set (compute_tag_weights_from_favorites lib0 [gallery_elf] None)) = 1
   \<and> get_base_weights_for_sync lib0 [gallery_elf] \<noteq> []
   \<and> Max (snd ` set (get_base_weights_for_sync lib0 [gallery_elf])) = 1"
proof -
  have t: "compute_tag_weights_from_favorites lib0 [gallery_elf] None
             = [(''female:elf'', 1), (''language:japanese'', 11/12)]"
    by (rule elf_table) (simp add: gallery_elf_def)
  have a: "\<exists>w \<in> snd ` set (compute_tag_weights_from_favorites lib0 [gallery_elf] None). w > 0"
    unfolding t by simp
  have "all_tags lib0 [gallery_elf] \<noteq> []"
    by (simp add: all_tags_def gallery_tags_def gallery_elf_def)
  then have b: "get_base_weights_for_sync lib0 [gallery_elf] \<noteq> []"
    by (simp add: base_sync_Nil_iff)
  show ?thesis
    using tag_weights_normalized[of lib0 "[gallery_elf]" None] a b by blast
qed

text \<open>
  The claim as stated fails: one favorite without tags gives empty tables, and one
  favorite whose only tag has eleven dislikes gives a table with maximum 0.
\<close>

theorem tag_weights_normalized_counterexample:
  "[gallery_notags] \<noteq> []
   \<and> compute_tag_weights_from_favorites lib0 [gallery_notags] None = []
   \<and> get_base_weights_for_sync lib0 [gallery_notags] = []
   \<and> [gallery_x] \<noteq> []
   \<and> compute_tag_weights_from_favorites lib0 [gallery_x] (Some [''character:x'' \<mapsto> (0, 11)])
       = [(''character:x'', 0)]
   \<and> Max (snd ` set (compute_tag_weights_from_favorites lib0 [gallery_x]
                        (Some [''character:x'' \<mapsto> (0, 11)]))) \<noteq> 1"
proof -
  have n: "all_tags lib0 [gallery_notags] = []"
    by (simp add: all_tags_def gallery_tags_def gallery_notags_def)
  have a: "compute_tag_weights_from_favorites lib0 [gallery_notags] None = []"
    using n by (simp add: tag_weights_Nil_iff)
  have b: "get_base_weights_for_sync lib0 [gallery_notags] = []"
    using n by (simp add: base_sync_Nil_iff)
  have m: "compute_feedback_multiplier 0 11 = 0"
    by (simp add: multiplier_raw raw_closed power_divide)
  have c: "compute_tag_weights_from_favorites lib0 [gallery_x]
             (Some [''character:x'' \<mapsto> (0, 11)]) = [(''character:x'', 0)]"
    by (simp add: compute_tag_weights_from_favorites_def base_weights_def tag_counter_def
      gallery_tags_def gallery_x_def counter_update_def max_values_or_one_def scale_by_def
      apply_feedback_def stats_of_def m Let_def ns_weight_def namespace_def
      NAMESPACE_WEIGHTS_def)
  show ?thesis unfolding c using a b by simp
qed

section \<open>Properties of the favorites crawler\<close>

lemma fetch_all_loop_keeps:
  "set acc \<subseteq> set (fst (fetch_all_loop fetch favcat max_pages page_num token acc requested))"
proof (induction fetch favcat max_pages page_num token acc requested
        rule: fetch_all_loop.induct)
  case (1 fetch favcat max_pages page_num token all_galleries requested)
  show ?case
  proof (cases "page_num < max_pages \<and> items (fetch favcat token) \<noteq> []
                \<and> \<not> no_token (next_token (fetch favcat token))")
    case True
    then have "set (all_galleries @ items (fetch favcat token))
                 \<subseteq> set (fst (fetch_all_loop fetch favcat max_pages (page_num + 1)
                                (the (next_token (fetch favcat token)))
                                (all_galleries @ items (fetch favcat token))
                                (requested @ [token])))"
      using "1.IH" by simp
    then show ?thesis
      using True by (subst fetch_all_loop.simps) (auto simp: Let_def)
  next
    case False
    then show ?thesis
      by (subst fetch_all_loop.simps) (auto simp: Let_def)
  qed
qed

lemma first_page_in_full_sync:
  assumes "0 < max_pages"
  shows "set (items (fetch favcat [])) \<subseteq> set (fst (fetch_all_favorites fetch favcat max_pages))"
proof (cases "items (fetch favcat []) \<noteq> [] \<and> \<not> no_token (next_token (fetch favcat []))")
  case True
  have "set ([] @ items (fetch favcat []))
          \<subseteq> set (fst (fetch_all_loop fetch favcat max_pages (0 + 1)
                         (the (next_token (fetch favcat [])))
                         ([] @ items (fetch favcat [])) ([] @ [[]])))"
    by (rule fetch_all_loop_keeps)
  then show ?thesis
    using True assms unfolding fetch_all_favorites_def
    by (subst fetch_all_loop.simps) (simp add: Let_def)
next
  case False
  then show ?thesis
    using assms unfolding fetch_all_favorites_def
    by (subst fetch_all_loop.simps) (auto simp: Let_def)
qed

lemma fetch_new_all_known:
  assumes "\<forall>it \<in> set (items (fetch favcat [])). fst it \<in> known_gids"
  shows "fetch_new_favorites fetch known_gids favcat max_pages
           = ([], if 0 < max_pages then [[]] else [])"
proof -
  have "filter (\<lambda>g. fst g \<notin> known_gids) (items (fetch favcat [])) = []"
    using assms by (simp add: filter_empty_conv)
  then show ?thesis
    unfolding fetch_new_favorites_def
    by (subst fetch_new_loop.simps) (simp add: Let_def)
qed

text \<open>
  C9. When every gallery id on the first page of the listing is already known (in
  particular when the known set holds every id the listing returns, or every id a full
  sync of at least one page returned), the incremental sync returns no new item and
  requests the first page only; it requests no page at all when \<open>max_pages\<close> allows none.
\<close>

theorem incremental_sync_all_known:
  "((\<forall>it \<in> set (items (fetch favcat [])). fst it \<in> known_gids) \<longrightarrow>
      fst (fetch_new_favorites fetch known_gids favcat max_pages) = []
      \<and> length (snd (fetch_new_favorites fetch known_gids favcat max_pages)) \<le> 1
      \<and> (0 < max_pages \<longrightarrow>
            snd (fetch_new_favorites fetch known_gids favcat max_pages) = [[]]))
   \<and> (0 < full_pages \<and> 0 < max_pages \<longrightarrow>
        fetch_new_favorites fetch
          (fst ` set (fst (fetch_all_favorites fetch favcat full_pages))) favcat max_pages
        = ([], [[]]))"
proof -
  have 1: "(\<forall>it \<in> set (items (fetch favcat [])). fst it \<in> known_gids) \<longrightarrow>
      fst (fetch_new_favorites fetch known_gids favcat max_pages) = []
      \<and> length (snd (fetch_new_favorites fetch known_gids favcat max_pages)) \<le> 1
      \<and> (0 < max_pages \<longrightarrow>
            snd (fetch_new_favorites fetch known_gids favcat max_pages) = [[]])"
    using fetch_new_all_known[of fetch favcat known_gids max_pages] by simp
  have 2: "fetch_new_favorites fetch
          (fst ` set (fst (fetch_all_favorites fetch favcat full_pages))) favcat max_pages
        = ([], [[]])" if "0 < full_pages" "0 < max_pages"
  proof -
    have "\<forall>it \<in> set (items (fetch favcat [])).
            fst it \<in> fst ` set (fst (fetch_all_favorites fetch favcat full_pages))"
      using first_page_in_full_sync[OF that(1), of fetch favcat] by blast
    then show ?thesis using fetch_new_all_known that(2) by simp
  qed
  show ?thesis using 1 2 by blast
qed

theorem incremental_sync_all_known_witness:
  "map fst (items (two_pages ''all'' [])) = [1, 2]
   \<and> (0::int) < 50 \<and> (0::int) < 10
   \<and> fetch_new_favorites two_pages {1, 2, 3} ''all'' 10 = ([], [[]])
   \<and> fetch_new_favorites two_pages
        (fst ` set (fst (fetch_all_favorites two_pages ''all'' 50))) ''all'' 10 = ([], [[]])"
proof -
  have h: "\<forall>it \<in> set (items (two_pages ''all'' [])). fst it \<in> {1, 2, 3}"
    by (simp add: two_pages_def)
  show ?thesis
    using incremental_sync_all_known[of two_pages "''all''" "{1, 2, 3}" 10 50] h
    by (simp add: prod_eq_iff two_pages_def)
qed

section \<open>Properties of the recommendation engine\<close>

subsection \<open>What scoring leaves untouched\<close>

lemma same_tables_refl: "same_tables E E"
  by (simp add: same_tables_def)

lemma same_tables_trans: "same_tables E E' \<Longrightarrow> same_tables E' E'' \<Longrightarrow> same_tables E E''"
  by (simp add: same_tables_def)

lemma same_tables_logged: "same_tables E (logged ev E)"
  by (simp add: same_tables_def logged_def)

lemma passes_same_tables: "same_tables E E' \<Longrightarrow> passes source now E' g = passes source now E g"
  by (simp add: same_tables_def passes_def is_favorited_def get_feedback_def is_recommended_def
        split: option.split)

lemma sync_fold_tables:
  "favorites (foldl (\<lambda>d (tag, base_weight).
                    case user_preferences d tag of
                      Some row \<Rightarrow>
                        if positive_count row > 0 \<or> negative_count row > 0 then d
                        else update_tag_preference d now tag base_weight
                               (positive_count row) (negative_count row)
                    | None \<Rightarrow> update_tag_preference d now tag base_weight 0 0) db tw)
     = favorites db
   \<and> feedback (foldl (\<lambda>d (tag, base_weight).
                    case user_preferences d tag of
                      Some row \<Rightarrow>
                        if positive_count row > 0 \<or> negative_count row > 0 then d
                        else update_tag_preference d now tag base_weight
                               (positive_count row) (negative_count row)
                    | None \<Rightarrow> update_tag_preference d now tag base_weight 0 0) db tw)
     = feedback db
   \<and> recommendation_history (foldl (\<lambda>d (tag, base_weight).
                    case user_preferences d tag of
                      Some row \<Rightarrow>
                        if positive_count row > 0 \<or> negative_count row > 0 then d
                        else update_tag_preference d now tag base_weight
                               (positive_count row) (negative_count row)
                    | None \<Rightarrow> update_tag_preference d now tag base_weight 0 0) db tw)
     = recommendation_history db"
proof (induction tw arbitrary: db)
  case Nil
  then show ?case by simp
next
  case (Cons a tw)
  obtain tag w where a: "a = (tag, w)" by (cases a)
  show ?case
    unfolding a foldl_Cons
    by (simp add: Cons.IH update_tag_preference_def split: option.split)
qed

lemma sync_tables:
  "favorites (sync_tag_preferences db now tw) = favorites db
   \<and> feedback (sync_tag_preferences db now tw) = feedback db
   \<and> recommendation_history (sync_tag_preferences db now tw) = recommendation_history db"
  using sync_fold_tables[of now db tw] by (simp add: sync_tag_preferences_def)

lemma initialize_tables:
  assumes "initialize L D now E = Inr E'"
  shows "same_tables E E'"
proof (cases "map fst (get_all_favorites (database E)) = []")
  case True
  then have "E' = (logged WarnFavoritesEmpty (logged InfoInitStart E))\<lparr>is_initialized := True\<rparr>"
    using assms by (simp add: initialize_def Let_def logged_def)
  then show ?thesis by (simp add: same_tables_def logged_def)
next
  case False
  note nf = this
  show ?thesis
  proof (cases "get_galleries_by_ids D (map fst (get_all_favorites (database E)))")
    case (Inl e)
    then show ?thesis using assms nf by (simp add: initialize_def Let_def logged_def)
  next
    case (Inr favs)
    show ?thesis
    proof (cases "favs = []")
      case True
      then have "E' = (logged WarnNoFavoriteInfo (logged InfoInitStart E))\<lparr>is_initialized := True\<rparr>"
        using assms nf Inr by (simp add: initialize_def Let_def logged_def)
      then show ?thesis by (simp add: same_tables_def logged_def)
    next
      case False
      then have "database E' = sync_tag_preferences (database E) now
                                  (get_base_weights_for_sync L favs) \<and> config E' = config E"
        using assms nf Inr by (auto simp: initialize_def Let_def logged_def)
      then show ?thesis using sync_tables by (simp add: same_tables_def)
    qed
  qed
qed

lemma initialize_runs:
  assumes "initialize L D now E = Inr E'"
  shows "is_initialized E' \<and> (\<exists>evs. engine_log E' = engine_log E @ InfoInitStart # evs)"
proof (cases "map fst (get_all_favorites (database E)) = []")
  case True
  then have "E' = (logged WarnFavoritesEmpty (logged InfoInitStart E))\<lparr>is_initialized := True\<rparr>"
    using assms by (simp add: initialize_def Let_def logged_def)
  then show ?thesis by (simp add: logged_def)
next
  case False
  note nf = this
  show ?thesis
  proof (cases "get_galleries_by_ids D (map fst (get_all_favorites (database E)))")
    case (Inl e)
    then show ?thesis using assms nf by (simp add: initialize_def Let_def logged_def)
  next
    case (Inr favs)
    show ?thesis
    proof (cases "favs = []")
      case True
      then have "E' = (logged WarnNoFavoriteInfo (logged InfoInitStart E))\<lparr>is_initialized := True\<rparr>"
        using assms nf Inr by (simp add: initialize_def Let_def logged_def)
      then show ?thesis by (simp add: logged_def)
    next
      case False
      then have "is_initialized E' \<and> engine_log E' = engine_log E @ [InfoInitStart, InfoInitDone]"
        using assms nf Inr by (auto simp: initialize_def Let_def logged_def)
      then show ?thesis by simp
    qed
  qed
qed

lemma score_result:
  assumes "compute_recommendation_score L D now E g = Inr (res, E1)"
  shows "is_initialized E1 \<and> res = score_gallery L now E1 g \<and> same_tables E E1
         \<and> (is_initialized E \<longrightarrow> E1 = E)"
proof (cases "is_initialized E")
  case True
  then have "E1 = E \<and> res = score_gallery L now E g"
    using assms by (auto simp: compute_recommendation_score_def)
  then show ?thesis using True by (simp add: same_tables_refl)
next
  case False
  show ?thesis
  proof (cases "initialize L D now E")
    case (Inl e)
    then show ?thesis using assms False by (simp add: compute_recommendation_score_def)
  next
    case (Inr E0)
    then have "E1 = E0 \<and> res = score_gallery L now E0 g"
      using assms False by (auto simp: compute_recommendation_score_def)
    then show ?thesis using False initialize_runs[OF Inr] initialize_tables[OF Inr] by simp
  qed
qed

lemma score_initialized:
  "is_initialized E \<Longrightarrow>
   compute_recommendation_score L D now E g = Inr (score_gallery L now E g, E)"
  by (simp add: compute_recommendation_score_def)

lemma logged_sel:
  "config (logged ev E) = config E" "tag_analyzer (logged ev E) = tag_analyzer E"
  "uploader_analyzer (logged ev E) = uploader_analyzer E"
  "content_scorer (logged ev E) = content_scorer E" "database (logged ev E) = database E"
  "is_initialized (logged ev E) = is_initialized E"
  "engine_log (logged ev E) = engine_log E @ [ev]"
  by (simp_all add: logged_def)

lemma score_gallery_logged: "score_gallery L now (logged ev E) g = score_gallery L now E g"
  unfolding score_gallery_def logged_sel ..

lemma rec_of_logged: "rec_of L now (logged ev E) src g = rec_of L now E src g"
  by (simp add: rec_of_def score_gallery_logged)


lemma kept_logged: "kept L now (logged ev E) g = kept L now E g"
  by (simp add: kept_def score_gallery_logged logged_sel)

lemma passes_logged: "passes source now (logged ev E) g = passes source now E g"
  by (rule passes_same_tables) (rule same_tables_logged)

subsection \<open>The filter loop\<close>

lemma filter_loop_skip:
  "\<not> passes source now E g \<Longrightarrow>
   filter_loop L D now source E acc (g # gs) = filter_loop L D now source E acc gs"
  by (cases "is_favorited (database E) (gid g)"; cases "get_feedback (database E) (gid g)";
      cases "source = ''manual''") (simp_all add: passes_def)

lemma filter_loop_score:
  "passes source now E g \<Longrightarrow>
   filter_loop L D now source E acc (g # gs) =
     (case compute_recommendation_score L D now E g of
        Inl e \<Rightarrow> Inl e
      | Inr ((score, dt), E') \<Rightarrow>
          filter_loop L D now source E'
            (if py_less score (min_score_threshold (config E')) then acc
             else acc @ [\<lparr>r_gallery = g, r_score = score, r_details = dt, r_source = source\<rparr>])
            gs)"
  by (cases "source = ''manual''") (simp_all add: passes_def split: sum.split prod.split)

text \<open>A candidate that passes the filters, on an engine that is initialized.\<close>

lemma filter_loop_step:
  assumes "passes source now E g" and "is_initialized E"
  shows "filter_loop L D now source E acc (g # gs) =
           filter_loop L D now source E
             (if kept L now E g then acc @ [rec_of L now E source g] else acc) gs"
  unfolding filter_loop_score[OF assms(1)] score_initialized[OF assms(2)]
  by (cases "score_gallery L now E g") (simp add: kept_def rec_of_def)

text \<open>The loop on an initialized engine: the engine stays, and the list grows by the
  recommendations of the candidates that pass the filters and the threshold, in order.\<close>

lemma filter_loop_initialized:
  assumes "is_initialized E"
  shows "filter_loop L D now source E acc gs
           = Inr (acc @ map (rec_of L now E source)
                          (filter (\<lambda>g. passes source now E g \<and> kept L now E g) gs), E)"
proof (induction gs arbitrary: acc)
  case Nil
  then show ?case by simp
next
  case (Cons g gs)
  show ?case
  proof (cases "passes source now E g")
    case False
    then show ?thesis unfolding filter_loop_skip[OF False] Cons.IH by simp
  next
    case True
    show ?thesis
      unfolding filter_loop_step[OF True assms] Cons.IH using True by simp
  qed
qed

text \<open>The loop on any engine: the engine it returns is the one every scored candidate was
  scored on.\<close>

lemma filter_loop_exact:
  "filter_loop L D now source E acc gs = Inr (recs, E') \<Longrightarrow>
   same_tables E E'
   \<and> (is_initialized E \<longrightarrow> E' = E)
   \<and> recs = acc @ map (rec_of L now E' source)
                     (filter (\<lambda>g. passes source now E g \<and> kept L now E' g) gs)"
proof (induction gs arbitrary: acc)
  case Nil
  then show ?case by (simp add: same_tables_refl)
next
  case (Cons g gs)
  show ?case
  proof (cases "passes source now E g")
    case False
    have "filter_loop L D now source E acc gs = Inr (recs, E')"
      using Cons.prems unfolding filter_loop_skip[OF False] .
    from Cons.IH[OF this] show ?thesis using False by simp
  next
    case True
    note step = Cons.prems[unfolded filter_loop_score[OF True]]
    obtain res E1 where sc: "compute_recommendation_score L D now E g = Inr (res, E1)"
    proof (cases "compute_recommendation_score L D now E g")
      case (Inl e)
      then show ?thesis using step by simp
    next
      case (Inr x)
      then show ?thesis using that by (cases x) blast
    qed
    from score_result[OF sc] have i1: "is_initialized E1"
      and res: "res = score_gallery L now E1 g" and t1: "same_tables E E1"
      and st: "is_initialized E \<longrightarrow> E1 = E"
      by blast+
    have p1: "passes source now E1 g" using True passes_same_tables[OF t1] by simp
    have fl: "filter_loop L D now source E1 acc (g # gs) = Inr (recs, E')"
      using step sc res unfolding filter_loop_score[OF p1] score_initialized[OF i1]
      by (cases "score_gallery L now E1 g") simp
    from fl[unfolded filter_loop_initialized[OF i1]] have e: "E' = E1"
      and rr: "recs = acc @ map (rec_of L now E1 source)
                     (filter (\<lambda>g. passes source now E1 g \<and> kept L now E1 g) (g # gs))"
      by blast+
    have pe: "passes source now E1 = passes source now E"
      by (rule ext) (rule passes_same_tables[OF t1])
    have "recs = acc @ map (rec_of L now E' source)
                     (filter (\<lambda>g. passes source now E g \<and> kept L now E' g) (g # gs))"
      unfolding e by (rule rr[unfolded pe])
    then show ?thesis using t1 st e by simp
  qed
qed

lemma set_permuted:
  assumes "sort order = [0..<length xs]"
  shows "set (map (\<lambda>i. xs ! i) order) = set xs"
proof -
  have "set order = set (sort order)" by simp
  also have "\<dots> = {0..<length xs}" unfolding assms by simp
  finally have o: "set order = {0..<length xs}" .
  have "set (map (\<lambda>i. xs ! i) order) = (\<lambda>i. xs ! i) ` {0..<length xs}"
    unfolding set_map o ..
  also have "\<dots> = set xs" unfolding set_conv_nth by auto
  finally show ?thesis .
qed

lemma set_sort_recommendations: "set (sort_recommendations L recs) = set recs"
proof (cases "\<forall>r \<in> set recs. r_score r \<noteq> None")
  case True
  then show ?thesis by (simp add: sort_recommendations_def)
next
  case False
  show ?thesis
  proof (cases "sort (nan_order L (map r_score recs)) = [0..<length recs]")
    case True
    have "sort_recommendations L recs = map (\<lambda>i. recs ! i) (nan_order L (map r_score recs))"
      by (simp only: sort_recommendations_def Let_def False True if_False if_True refl)
    then show ?thesis using set_permuted[OF True] by simp
  next
    case f: False
    show ?thesis by (simp only: sort_recommendations_def Let_def False f if_False)
  qed
qed

lemma sort_recommendations_numbers:
  "\<forall>r \<in> set recs. r_score r \<noteq> None \<Longrightarrow>
   sort_recommendations L recs = sort_key (\<lambda>r. - the (r_score r)) recs"
  by (simp add: sort_recommendations_def)

lemma filter_and_score_exact:
  assumes "filter_and_score_galleries L D now E gs source = Inr (recs, E')"
  shows "same_tables E E'
         \<and> (is_initialized E \<longrightarrow> E'\<lparr>engine_log := engine_log E\<rparr> = E)
         \<and> recs = sort_recommendations L
                    (map (rec_of L now E' source)
                       (filter (\<lambda>g. passes source now E g \<and> kept L now E' g) gs))"
proof (cases "filter_loop L D now source E [] gs")
  case (Inl e)
  then show ?thesis using assms by (simp add: filter_and_score_galleries_def)
next
  case (Inr p)
  obtain recs0 E0 where p: "p = (recs0, E0)" by (cases p)
  from filter_loop_exact[OF Inr[unfolded p]]
  have t: "same_tables E E0" and st: "is_initialized E \<longrightarrow> E0 = E"
    and r0: "recs0 = map (rec_of L now E0 source)
                       (filter (\<lambda>g. passes source now E g \<and> kept L now E0 g) gs)"
    by simp_all
  obtain ev where E': "E' = logged ev E0" and recs: "recs = sort_recommendations L recs0"
    using assms Inr p by (auto simp: filter_and_score_galleries_def Let_def)
  have 1: "same_tables E E'"
    unfolding E' using t same_tables_logged by (rule same_tables_trans)
  have 2: "is_initialized E \<longrightarrow> E'\<lparr>engine_log := engine_log E\<rparr> = E"
    using st by (simp add: E' logged_def)
  have 3: "recs = sort_recommendations L
                    (map (rec_of L now E' source)
                       (filter (\<lambda>g. passes source now E g \<and> kept L now E' g) gs))"
    unfolding recs r0 E' by (simp add: rec_of_logged kept_logged cong: map_cong)
  show ?thesis using 1 2 3 by blast
qed


subsection \<open>The three query modes\<close>

lemma recommend_new_exact:
  assumes "recommend_new_galleries L D now E since limit = Inr (recs, E')"
  shows "\<exists>gs. get_new_galleries D since limit = Inr gs
           \<and> same_tables E E'
           \<and> recs = sort_recommendations L
                      (map (rec_of L now E' ''new'')
                         (filter (\<lambda>g. passes ''new'' now E g \<and> kept L now E' g) gs))"
proof (cases "get_new_galleries D since limit")
  case (Inl e)
  then show ?thesis using assms by (simp add: recommend_new_galleries_def)
next
  case (Inr gs)
  then have "filter_and_score_galleries L D now (logged (InfoRecommendNew since) E) gs ''new''
               = Inr (recs, E')"
    using assms by (simp add: recommend_new_galleries_def)
  from filter_and_score_exact[OF this]
  have "same_tables (logged (InfoRecommendNew since) E) E'"
    and "recs = sort_recommendations L
                  (map (rec_of L now E' ''new'')
                     (filter (\<lambda>g. passes ''new'' now E g \<and> kept L now E' g) gs))"
    unfolding passes_logged by blast+
  then show ?thesis
    using Inr same_tables_trans[OF same_tables_logged] by blast
qed

lemma recommend_pool_exact:
  assumes "recommend_from_pool L D now E count min_rating = Inr (recs, E')"
  shows "\<exists>gs. get_random_galleries D count min_rating = Inr gs
           \<and> same_tables E E'
           \<and> recs = sort_recommendations L
                      (map (rec_of L now E' ''old'')
                         (filter (\<lambda>g. passes ''old'' now E g \<and> kept L now E' g) gs))"
proof (cases "get_random_galleries D count min_rating")
  case (Inl e)
  then show ?thesis using assms by (simp add: recommend_from_pool_def)
next
  case (Inr gs)
  then have "filter_and_score_galleries L D now (logged (InfoRecommendPool count) E) gs ''old''
               = Inr (recs, E')"
    using assms by (simp add: recommend_from_pool_def)
  from filter_and_score_exact[OF this]
  have "same_tables (logged (InfoRecommendPool count) E) E'"
    and "recs = sort_recommendations L
                  (map (rec_of L now E' ''old'')
                     (filter (\<lambda>g. passes ''old'' now E g \<and> kept L now E' g) gs))"
    unfolding passes_logged by blast+
  then show ?thesis
    using Inr same_tables_trans[OF same_tables_logged] by blast
qed

lemma recommend_similar_exact:
  assumes "recommend_similar L D now E g limit = Inr (recs, E')"
    and "get_gallery D g = Inr (Some base)"
  shows "\<exists>sim. search_similar_galleries D (gallery_tags L base) (uploader base) (limit * 3)
                 = Inr sim
           \<and> same_tables E E'
           \<and> recs = py_take limit
                      (sort_recommendations L
                         (map (rec_of L now E' ''manual'')
                            (filter (\<lambda>c. passes ''manual'' now E c \<and> kept L now E' c)
                               (filter (\<lambda>c. gid c \<noteq> g) sim))))"
proof (cases "search_similar_galleries D (gallery_tags L base) (uploader base) (limit * 3)")
  case (Inl e)
  then show ?thesis using assms by (simp add: recommend_similar_def)
next
  case (Inr sim)
  let ?E0 = "logged (InfoRecommendSimilar g) E"
  let ?gs = "filter (\<lambda>c. gid c \<noteq> g) sim"
  show ?thesis
  proof (cases "filter_and_score_galleries L D now ?E0 ?gs ''manual''")
    case (Inl e)
    then show ?thesis using assms Inr by (simp add: recommend_similar_def)
  next
    case r: (Inr p)
    obtain recs0 E0 where p: "p = (recs0, E0)" by (cases p)
    have e: "E' = E0" and rc: "recs = py_take limit recs0"
      using assms Inr r p by (simp_all add: recommend_similar_def)
    from filter_and_score_exact[OF r[unfolded p]]
    have "same_tables ?E0 E0"
      and "recs0 = sort_recommendations L
                    (map (rec_of L now E0 ''manual'')
                       (filter (\<lambda>c. passes ''manual'' now E c \<and> kept L now E0 c) ?gs))"
      unfolding passes_logged by blast+
    then show ?thesis
      using Inr same_tables_trans[OF same_tables_logged] e rc by blast
  qed
qed

lemma recommend_similar_missing:
  "get_gallery D g = Inr None \<Longrightarrow>
   recommend_similar L D now E g limit
     = Inr ([], logged (WarnGalleryMissing g) (logged (InfoRecommendSimilar g) E))"
  by (simp add: recommend_similar_def)




subsection \<open>The filters, spelled out\<close>






lemma rec_of_gallery: "r_gallery (rec_of L now E src g) = g"
  by (simp add: rec_of_def)

lemma returned_passes:
  assumes "r \<in> set (sort_recommendations L
                      (map (rec_of L now E' src) (filter (\<lambda>g. passes src now E g \<and> Q g) gs)))"
  shows "passes src now E (r_gallery r) \<and> r_gallery r \<in> set gs"
proof -
  from assms
  have "r \<in> set (map (rec_of L now E' src) (filter (\<lambda>g. passes src now E g \<and> Q g) gs))"
    unfolding set_sort_recommendations .
  then obtain g where "g \<in> set (filter (\<lambda>g. passes src now E g \<and> Q g) gs)"
    and "r = rec_of L now E' src g"
    unfolding set_map by (rule imageE)
  then show ?thesis by (simp add: rec_of_gallery)
qed

lemma set_py_take: "set (py_take n xs) \<subseteq> set xs"
  by (auto simp: py_take_def dest: in_set_takeD)

lemma recommend_new_sound:
  assumes "recommend_new_galleries L D now E since limit = Inr (recs, E')"
  shows "\<forall>r \<in> set recs. passes ''new'' now E (r_gallery r)"
proof -
  from recommend_new_exact[OF assms] obtain gs where
    r: "recs = sort_recommendations L
              (map (rec_of L now E' ''new'')
                 (filter (\<lambda>g. passes ''new'' now E g \<and> kept L now E' g) gs))"
    by blast
  show ?thesis
  proof
    fix r assume "r \<in> set recs"
    from returned_passes[OF this[unfolded r]]
    show "passes ''new'' now E (r_gallery r)" by (rule conjunct1)
  qed
qed

lemma recommend_pool_sound:
  assumes "recommend_from_pool L D now E count min_rating = Inr (recs, E')"
  shows "\<forall>r \<in> set recs. passes ''old'' now E (r_gallery r)"
proof -
  from recommend_pool_exact[OF assms] obtain gs where
    r: "recs = sort_recommendations L
              (map (rec_of L now E' ''old'')
                 (filter (\<lambda>g. passes ''old'' now E g \<and> kept L now E' g) gs))"
    by blast
  show ?thesis
  proof
    fix r assume "r \<in> set recs"
    from returned_passes[OF this[unfolded r]]
    show "passes ''old'' now E (r_gallery r)" by (rule conjunct1)
  qed
qed

lemma recommend_similar_sound:
  assumes "recommend_similar L D now E g limit = Inr (recs, E')"
  shows "\<forall>r \<in> set recs. passes ''manual'' now E (r_gallery r) \<and> gid (r_gallery r) \<noteq> g"
proof (cases "get_gallery D g")
  case (Inl e)
  then show ?thesis using assms by (simp add: recommend_similar_def)
next
  case (Inr b)
  show ?thesis
  proof (cases b)
    case None
    then show ?thesis using assms Inr by (simp add: recommend_similar_def)
  next
    case (Some base)
    from recommend_similar_exact[OF assms Inr[unfolded Some]] obtain sim where
      r: "recs = py_take limit
                (sort_recommendations L
                   (map (rec_of L now E' ''manual'')
                      (filter (\<lambda>c. passes ''manual'' now E c \<and> kept L now E' c)
                         (filter (\<lambda>c. gid c \<noteq> g) sim))))"
      by blast
    show ?thesis
    proof
      fix r assume "r \<in> set recs"
      then have "r \<in> set (sort_recommendations L
                   (map (rec_of L now E' ''manual'')
                      (filter (\<lambda>c. passes ''manual'' now E c \<and> kept L now E' c)
                         (filter (\<lambda>c. gid c \<noteq> g) sim))))"
        unfolding r using set_py_take[of limit] by (rule subsetD[rotated])
      from returned_passes[OF this]
      show "passes ''manual'' now E (r_gallery r) \<and> gid (r_gallery r) \<noteq> g" by simp
    qed
  qed
qed

subsection \<open>A query returns when the content store answers\<close>

lemma initialize_returns:
  assumes "\<forall>ids e. get_galleries_by_ids D ids \<noteq> Inl e"
  shows "\<exists>E'. initialize L D now E = Inr E'"
proof (cases "get_galleries_by_ids D (map fst (get_all_favorites (database (logged InfoInitStart E))))")
  case (Inl e)
  then show ?thesis using assms by blast
next
  case (Inr favs)
  then show ?thesis by (simp add: initialize_def Let_def)
qed

lemma score_returns:
  assumes "\<forall>ids e. get_galleries_by_ids D ids \<noteq> Inl e"
  shows "\<exists>res E'. compute_recommendation_score L D now E g = Inr (res, E')"
proof (cases "is_initialized E")
  case True
  then show ?thesis by (simp add: score_initialized)
next
  case False
  from initialize_returns[OF assms] obtain E0 where "initialize L D now E = Inr E0" by blast
  then show ?thesis using False by (simp add: compute_recommendation_score_def)
qed

lemma filter_loop_returns:
  assumes "\<forall>ids e. get_galleries_by_ids D ids \<noteq> Inl e"
  shows "\<exists>recs E'. filter_loop L D now source E acc gs = Inr (recs, E')"
proof (induction gs arbitrary: E acc)
  case Nil
  then show ?case by simp
next
  case (Cons g gs)
  show ?case
  proof (cases "passes source now E g")
    case False
    show ?thesis unfolding filter_loop_skip[OF False] by (rule Cons.IH)
  next
    case True
    from score_returns[OF assms] obtain res E1
      where s: "compute_recommendation_score L D now E g = Inr (res, E1)" by blast
    obtain sc dt where r: "res = (sc, dt)" by (cases res)
    show ?thesis
      unfolding filter_loop_score[OF True] s r using Cons.IH[of E1] by simp
  qed
qed

lemma filter_and_score_returns:
  assumes "\<forall>ids e. get_galleries_by_ids D ids \<noteq> Inl e"
  shows "\<exists>recs E'. filter_and_score_galleries L D now E gs source = Inr (recs, E')"
proof -
  from filter_loop_returns[OF assms] obtain recs E'
    where "filter_loop L D now source E [] gs = Inr (recs, E')" by blast
  then show ?thesis by (simp add: filter_and_score_galleries_def Let_def)
qed

lemma recommend_new_returns:
  assumes "\<forall>ids e. get_galleries_by_ids D ids \<noteq> Inl e"
    and "\<forall>e. get_new_galleries D since limit \<noteq> Inl e"
  shows "\<exists>recs E'. recommend_new_galleries L D now E since limit = Inr (recs, E')"
proof (cases "get_new_galleries D since limit")
  case (Inl e)
  then show ?thesis using assms(2) by blast
next
  case (Inr gs)
  show ?thesis
    using filter_and_score_returns[OF assms(1), of L now "logged (InfoRecommendNew since) E" gs "''new''"]
    by (simp only: recommend_new_galleries_def Let_def Inr sum.case)
qed

lemma recommend_pool_returns:
  assumes "\<forall>ids e. get_galleries_by_ids D ids \<noteq> Inl e"
    and "\<forall>e. get_random_galleries D count min_rating \<noteq> Inl e"
  shows "\<exists>recs E'. recommend_from_pool L D now E count min_rating = Inr (recs, E')"
proof (cases "get_random_galleries D count min_rating")
  case (Inl e)
  then show ?thesis using assms(2) by blast
next
  case (Inr gs)
  show ?thesis
    using filter_and_score_returns[OF assms(1), of L now "logged (InfoRecommendPool count) E" gs "''old''"]
    by (simp only: recommend_from_pool_def Let_def Inr sum.case)
qed

lemma recommend_similar_returns:
  assumes "\<forall>ids e. get_galleries_by_ids D ids \<noteq> Inl e"
    and "\<forall>e. get_gallery D g \<noteq> Inl e"
    and "\<forall>ts u n e. search_similar_galleries D ts u n \<noteq> Inl e"
  shows "\<exists>recs E'. recommend_similar L D now E g limit = Inr (recs, E')"
proof (cases "get_gallery D g")
  case (Inl e)
  then show ?thesis using assms(2) by blast
next
  case (Inr b)
  show ?thesis
  proof (cases b)
    case None
    then show ?thesis using Inr by (simp add: recommend_similar_missing)
  next
    case (Some base)
    note g = Inr[unfolded Some]
    show ?thesis
    proof (cases "search_similar_galleries D (gallery_tags L base) (uploader base) (limit * 3)")
      case (Inl e)
      then show ?thesis using assms(3) by blast
    next
      case s: (Inr sim)
      from filter_and_score_returns[OF assms(1)] obtain recs E' where
        f: "filter_and_score_galleries L D now (logged (InfoRecommendSimilar g) E)
              (filter (\<lambda>c. gid c \<noteq> g) sim) ''manual'' = Inr (recs, E')"
        by blast
      have "recommend_similar L D now E g limit = Inr (py_take limit recs, E')"
        by (simp only: recommend_similar_def Let_def g s sum.case option.case f prod.case)
      then show ?thesis by blast
    qed
  qed
qed

subsection \<open>The concrete engine at work\<close>

lemma round3_vals:
  "round3 0 = 0" "round3 (19/20) = 19/20" "round3 (2/5) = 2/5" "round3 (1/2) = 1/2"
  "round3 (11/40) = 11/40"
  by (simp_all add: round3_def Let_def)

lemma quality_elf: "compute_quality_score cs0 gallery_elf = Some (95/100)"
  by (simp add: compute_quality_score_def cs0_def gallery_elf_def np_mean_def Let_def)

text \<open>All favorites rated 4.5 and a candidate rated 4.5: the quality score is NaN.\<close>

lemma quality_same: "compute_quality_score cs_same gallery_elf = None"
  by (simp add: compute_quality_score_def cs_same_def cs0_def gallery_elf_def Let_def)

lemma content_elf:
  "compute_content_score lib0 cs0 gallery_elf = 4/10"
  "compute_content_score lib0 cs_same gallery_elf = 4/10"
  by (simp_all add: compute_content_score_def cs_same_def cs0_def gallery_elf_def
        gallery_tags_def np_mean_def Let_def)

lemma recency_elf: "compute_recency_score lib0 now gallery_elf = 1/2"
  by (simp add: compute_recency_score_def posted_at_def gallery_elf_def)

lemma tag_sim0: "compute_tag_similarity lib0 ta0 ts = 0"
  by (simp add: compute_tag_similarity_def ta0_def)

lemma explain0: "explain_similarity lib0 ta0 ts n = []"
  by (simp add: explain_similarity_def ta0_def matched_def lib0_def)

lemma uploader0: "compute_uploader_score ua0 u = 0"
  by (simp add: compute_uploader_score_def ua0_def)

lemma plain_config:
  assumes "plain E"
  shows "tag_weight (config E) = 4/10" "uploader_weight (config E) = 2/10"
    "quality_weight (config E) = 2/10" "content_weight (config E) = 15/100"
    "recency_weight (config E) = 5/100" "min_score_threshold (config E) = 2/10"
proof -
  let ?c = "(config E)\<lparr>recommendation_expiry_days := Some 30\<rparr>"
  have e: "?c = config0" using assms by (simp add: plain_def)
  have "tag_weight ?c = 4/10" "uploader_weight ?c = 2/10" "quality_weight ?c = 2/10"
    "content_weight ?c = 15/100" "recency_weight ?c = 5/100" "min_score_threshold ?c = 2/10"
    unfolding e by (simp_all add: config0_def)
  then show "tag_weight (config E) = 4/10" "uploader_weight (config E) = 2/10"
    "quality_weight (config E) = 2/10" "content_weight (config E) = 15/100"
    "recency_weight (config E) = 5/100" "min_score_threshold (config E) = 2/10"
    by simp_all
qed

lemma score_elf:
  assumes "plain E"
  shows "score_gallery lib0 now E gallery_elf = (Some (275/1000), details_elf)"
proof -
  from assms have t: "tag_analyzer E = ta0"
    and u: "uploader_analyzer E = ua0" and c: "content_scorer E = cs0"
    by (simp_all add: plain_def)
  note cf = plain_config[OF assms]
  show ?thesis
    unfolding score_gallery_def
    by (simp add: t u c cf tag_sim0 explain0 uploader0 quality_elf content_elf recency_elf
          Let_def details_elf_def round3_vals)
qed

lemma plain_elf:
  assumes "plain E"
  shows "kept lib0 now E gallery_elf" "rec_of lib0 now E source gallery_elf = rec_elf source"
    "is_initialized E"
  using assms
  by (simp_all add: kept_def rec_of_def score_elf plain_config py_less_def rec_elf_def plain_def)

lemma engine_same_sel:
  "is_initialized (logged ev engine_same)" "database (logged ev engine_same) = db0"
  "config (logged ev engine_same) = config0"
  "is_initialized engine_same" "database engine_same = db0" "config engine_same = config0"
  by (simp_all add: engine_same_def engine_of_def logged_def)

lemma score_same:
  "score_gallery lib0 now engine_same gallery_elf
     = (None, details_elf\<lparr>d_quality_score := None, d_total_score := None\<rparr>)"
  unfolding score_gallery_def
  by (simp add: engine_same_def engine_of_def tag_sim0 explain0 uploader0 quality_same
        content_elf recency_elf Let_def details_elf_def round3_vals)

lemma same_elf:
  "kept lib0 now engine_same gallery_elf"
  "rec_of lib0 now engine_same source gallery_elf = rec_nan source"
  by (simp_all add: kept_def rec_of_def score_same py_less_def rec_nan_def)

lemma plain_logged: "plain E \<Longrightarrow> plain (logged ev E)"
  by (simp add: plain_def logged_def)

lemma plain_engine_of:
  "plain (engine_of db (config0\<lparr>recommendation_expiry_days := w\<rparr>) True)"
  "plain (engine_of db config0 True)"
  by (simp_all add: plain_def engine_of_def config0_def)

text \<open>Sorting a list of one recommendation, whatever its score.\<close>

lemma sort_single: "sort_recommendations L [r] = [r]"
proof (cases "r_score r")
  case (Some x)
  then show ?thesis by (simp add: sort_recommendations_def)
next
  case None
  show ?thesis
  proof (cases "sort (nan_order L [None]) = [0]")
    case True
    have "length (nan_order L [None]) = length (sort (nan_order L [None]))" by simp
    then have "length (nan_order L [None]) = 1" unfolding True by simp
    then obtain i where i: "nan_order L [None] = [i]"
      by (cases "nan_order L [None]") simp_all
    then have "i = 0" using True by simp
    then show ?thesis using None i by (simp add: sort_recommendations_def)
  next
    case False
    then show ?thesis using None by (simp add: sort_recommendations_def)
  qed
qed

text \<open>Three candidates, of which the first passes the filters and the threshold.\<close>

lemma filter_three:
  assumes "is_initialized E" and "passes source now E gallery_elf"
    and "\<not> passes source now E gallery_x" and "\<not> passes source now E gallery_notags"
    and "kept L now E gallery_elf"
  shows "filter_and_score_galleries L D now E [gallery_elf, gallery_x, gallery_notags] source
           = Inr ([rec_of L now E source gallery_elf], logged (InfoRecommendCompleted 3 1) E)"
  unfolding filter_and_score_galleries_def filter_loop_initialized[OF assms(1)]
  by (simp add: assms sort_single eval_nat_numeral)


lemma ehdb0_queries:
  "get_new_galleries ehdb0 since limit = Inr [gallery_elf, gallery_x, gallery_notags]"
  "get_random_galleries ehdb0 count mr = Inr [gallery_elf, gallery_x, gallery_notags]"
  "search_similar_galleries ehdb0 ts u n = Inr [gallery_elf, gallery_x, gallery_notags]"
  "get_gallery ehdb0 2 = Inr (Some gallery_notags)"
  "get_gallery ehdb0 42 = Inr None"
  by (simp_all add: ehdb0_def)

lemma new_three:
  assumes "is_initialized E" and "passes ''new'' now E gallery_elf"
    and "\<not> passes ''new'' now E gallery_x" and "\<not> passes ''new'' now E gallery_notags"
    and "kept L now E gallery_elf"
  shows "recommend_new_galleries L ehdb0 now E since limit
     = Inr ([rec_of L now E ''new'' gallery_elf],
            logged (InfoRecommendCompleted 3 1) (logged (InfoRecommendNew since) E))"
proof -
  let ?E = "logged (InfoRecommendNew since) E"
  have "is_initialized ?E" "passes ''new'' now ?E gallery_elf"
    "\<not> passes ''new'' now ?E gallery_x" "\<not> passes ''new'' now ?E gallery_notags"
    "kept L now ?E gallery_elf"
    using assms by (simp_all add: passes_logged kept_logged logged_sel)
  from filter_three[OF this] show ?thesis
    by (simp only: recommend_new_galleries_def Let_def ehdb0_queries sum.case rec_of_logged)
qed


lemma pool_three:
  assumes "is_initialized E" and "passes ''old'' now E gallery_elf"
    and "\<not> passes ''old'' now E gallery_x" and "\<not> passes ''old'' now E gallery_notags"
    and "kept L now E gallery_elf"
  shows "recommend_from_pool L ehdb0 now E count mr
     = Inr ([rec_of L now E ''old'' gallery_elf],
            logged (InfoRecommendCompleted 3 1) (logged (InfoRecommendPool count) E))"
proof -
  let ?E = "logged (InfoRecommendPool count) E"
  have "is_initialized ?E" "passes ''old'' now ?E gallery_elf"
    "\<not> passes ''old'' now ?E gallery_x" "\<not> passes ''old'' now ?E gallery_notags"
    "kept L now ?E gallery_elf"
    using assms by (simp_all add: passes_logged kept_logged logged_sel)
  from filter_three[OF this] show ?thesis
    by (simp only: recommend_from_pool_def Let_def ehdb0_queries sum.case rec_of_logged)
qed


lemma similar_two:
  assumes "is_initialized E" and "passes ''manual'' now E gallery_elf"
    and "\<not> passes ''manual'' now E gallery_x" and "kept L now E gallery_elf"
  shows "recommend_similar L ehdb0 now E 2 10
     = Inr ([rec_of L now E ''manual'' gallery_elf],
            logged (InfoRecommendCompleted 2 1) (logged (InfoRecommendSimilar 2) E))"
proof -
  let ?E = "logged (InfoRecommendSimilar 2) E"
  have i: "is_initialized ?E" using assms(1) by (simp add: logged_sel)
  have c: "filter (\<lambda>c. gid c \<noteq> 2) [gallery_elf, gallery_x, gallery_notags]
             = [gallery_elf, gallery_x]"
    by (simp add: gallery_elf_def gallery_x_def gallery_notags_def)
  have pe: "passes ''manual'' now ?E gallery_elf" and px: "\<not> passes ''manual'' now ?E gallery_x"
    and k: "kept L now ?E gallery_elf"
    using assms by (simp_all add: passes_logged kept_logged)
  have f: "filter_and_score_galleries L ehdb0 now ?E [gallery_elf, gallery_x] ''manual''
             = Inr ([rec_of L now E ''manual'' gallery_elf],
                    logged (InfoRecommendCompleted 2 1) ?E)"
    unfolding filter_and_score_galleries_def filter_loop_initialized[OF i]
    by (simp add: pe px k sort_single eval_nat_numeral rec_of_logged)
  note g = ehdb0_queries(4)
  note s = ehdb0_queries(3)
  have t: "py_take 10 [r] = [r]" for r :: recommendation
    by (simp add: py_take_def)
  show ?thesis
    by (simp only: recommend_similar_def Let_def g s sum.case option.case c f prod.case t)
qed

text \<open>Gallery 3 is a favorite and gallery 2 has feedback in both concrete databases;
  gallery 1 is neither.\<close>

lemma known_fail:
  "database E = db0 \<or> database E = db1 \<Longrightarrow> \<not> passes source now E gallery_x"
  "database E = db0 \<or> database E = db1 \<Longrightarrow> \<not> passes source now E gallery_notags"
  by (auto simp: passes_def db0_def db1_def add_recommendation_def is_favorited_def
        get_feedback_def gallery_x_def gallery_notags_def)

lemma elf_passes_iff:
  "database E = db0 \<or> database E = db1 \<Longrightarrow>
   passes source now E gallery_elf
     = (\<not> (source \<noteq> ''manual'' \<and>
           is_recommended (database E) now 1 (recommendation_expiry_days (config E))))"
  by (auto simp: passes_def db0_def db1_def add_recommendation_def is_favorited_def
        get_feedback_def gallery_elf_def)

lemma elf_passes_db0: "database E = db0 \<Longrightarrow> passes source now E gallery_elf"
  by (simp add: elf_passes_iff)
     (simp add: is_recommended_def db0_def split: option.split)

lemma engine_of_sel:
  "database (engine_of db cfg init) = db" "config (engine_of db cfg init) = cfg"
  by (simp_all add: engine_of_def)

lemma engine_of_init: "is_initialized (engine_of db cfg True)"
  by (simp add: engine_of_def)

lemma new_db0:
  "recommend_new_galleries lib0 ehdb0 now (engine_of db0 config0 True) since limit
     = Inr ([rec_elf ''new''],
            logged (InfoRecommendCompleted 3 1)
              (logged (InfoRecommendNew since) (engine_of db0 config0 True)))"
  using new_three[of "engine_of db0 config0 True" now lib0 since limit]
  by (simp add: plain_elf[OF plain_engine_of(2)] elf_passes_db0 known_fail engine_of_sel engine_of_init)

lemma pool_db0:
  "recommend_from_pool lib0 ehdb0 now (engine_of db0 config0 True) count mr
     = Inr ([rec_elf ''old''],
            logged (InfoRecommendCompleted 3 1)
              (logged (InfoRecommendPool count) (engine_of db0 config0 True)))"
  using pool_three[of "engine_of db0 config0 True" now lib0 count mr]
  by (simp add: plain_elf[OF plain_engine_of(2)] elf_passes_db0 known_fail engine_of_sel engine_of_init)

lemma similar_db0:
  "recommend_similar lib0 ehdb0 now (engine_of db0 config0 True) 2 10
     = Inr ([rec_elf ''manual''],
            logged (InfoRecommendCompleted 2 1)
              (logged (InfoRecommendSimilar 2) (engine_of db0 config0 True)))"
  using similar_two[of "engine_of db0 config0 True" now lib0]
  by (simp add: plain_elf[OF plain_engine_of(2)] elf_passes_db0 known_fail engine_of_sel engine_of_init)

text \<open>The same query on the engine whose favorites are all rated 4.5: gallery 1 has a NaN
  score, is not below the threshold, and is returned.\<close>

lemma new_same:
  "recommend_new_galleries lib0 ehdb0 now engine_same since limit
     = Inr ([rec_nan ''new''],
            logged (InfoRecommendCompleted 3 1) (logged (InfoRecommendNew since) engine_same))"
  using new_three[of engine_same now lib0 since limit]
  by (simp add: same_elf elf_passes_db0 known_fail engine_same_sel)

text \<open>
  C1. Whatever a query mode returns, none of the returned galleries is a favorite or has
  a feedback record in the database the query started from; the score plays no part, not
  even a NaN one. And every mode does return when the content store answers the queries
  put to it.
\<close>

theorem recommend_never_returns_known:
  "(recommend_new_galleries L D now E since limit = Inr (recs1, E1) \<longrightarrow>
      (\<forall>r \<in> set recs1. \<not> is_favorited (database E) (gid (r_gallery r))
                          \<and> get_feedback (database E) (gid (r_gallery r)) = None))
   \<and> (recommend_from_pool L D now E count min_rating = Inr (recs2, E2) \<longrightarrow>
      (\<forall>r \<in> set recs2. \<not> is_favorited (database E) (gid (r_gallery r))
                          \<and> get_feedback (database E) (gid (r_gallery r)) = None))
   \<and> (recommend_similar L D now E g limit' = Inr (recs3, E3) \<longrightarrow>
      (\<forall>r \<in> set recs3. \<not> is_favorited (database E) (gid (r_gallery r))
                          \<and> get_feedback (database E) (gid (r_gallery r)) = None))
   \<and> ((\<forall>ids e. get_galleries_by_ids D ids \<noteq> Inl e) \<longrightarrow>
        ((\<forall>e. get_new_galleries D since limit \<noteq> Inl e) \<longrightarrow>
           (\<exists>recs E'. recommend_new_galleries L D now E since limit = Inr (recs, E')))
        \<and> ((\<forall>e. get_random_galleries D count min_rating \<noteq> Inl e) \<longrightarrow>
           (\<exists>recs E'. recommend_from_pool L D now E count min_rating = Inr (recs, E')))
        \<and> ((\<forall>e. get_gallery D g \<noteq> Inl e)
             \<and> (\<forall>ts u n e. search_similar_galleries D ts u n \<noteq> Inl e) \<longrightarrow>
           (\<exists>recs E'. recommend_similar L D now E g limit' = Inr (recs, E'))))"
proof -
  have 1: "\<not> is_favorited (database E) (gid (r_gallery r))
           \<and> get_feedback (database E) (gid (r_gallery r)) = None"
    if "recommend_new_galleries L D now E since limit = Inr (recs1, E1)" "r \<in> set recs1" for r
    using recommend_new_sound[OF that(1)] that(2) by (simp add: passes_def)
  have 2: "\<not> is_favorited (database E) (gid (r_gallery r))
           \<and> get_feedback (database E) (gid (r_gallery r)) = None"
    if "recommend_from_pool L D now E count min_rating = Inr (recs2, E2)" "r \<in> set recs2" for r
    using recommend_pool_sound[OF that(1)] that(2) by (simp add: passes_def)
  have 3: "\<not> is_favorited (database E) (gid (r_gallery r))
           \<and> get_feedback (database E) (gid (r_gallery r)) = None"
    if "recommend_similar L D now E g limit' = Inr (recs3, E3)" "r \<in> set recs3" for r
    using recommend_similar_sound[OF that(1)] that(2) by (simp add: passes_def)
  have 4: "\<exists>recs E'. recommend_new_galleries L D now E since limit = Inr (recs, E')"
    if "\<forall>ids e. get_galleries_by_ids D ids \<noteq> Inl e"
      "\<forall>e. get_new_galleries D since limit \<noteq> Inl e"
    using that by (rule recommend_new_returns)
  have 5: "\<exists>recs E'. recommend_from_pool L D now E count min_rating = Inr (recs, E')"
    if "\<forall>ids e. get_galleries_by_ids D ids \<noteq> Inl e"
      "\<forall>e. get_random_galleries D count min_rating \<noteq> Inl e"
    using that by (rule recommend_pool_returns)
  have 6: "\<exists>recs E'. recommend_similar L D now E g limit' = Inr (recs, E')"
    if "\<forall>ids e. get_galleries_by_ids D ids \<noteq> Inl e"
      "\<forall>e. get_gallery D g \<noteq> Inl e"
      "\<forall>ts u n e. search_similar_galleries D ts u n \<noteq> Inl e"
    using that by (rule recommend_similar_returns)
  have A: "\<forall>r \<in> set recs1. \<not> is_favorited (database E) (gid (r_gallery r))
                          \<and> get_feedback (database E) (gid (r_gallery r)) = None"
    if "recommend_new_galleries L D now E since limit = Inr (recs1, E1)"
    using 1[OF that] by blast
  have B: "\<forall>r \<in> set recs2. \<not> is_favorited (database E) (gid (r_gallery r))
                          \<and> get_feedback (database E) (gid (r_gallery r)) = None"
    if "recommend_from_pool L D now E count min_rating = Inr (recs2, E2)"
    using 2[OF that] by blast
  have C: "\<forall>r \<in> set recs3. \<not> is_favorited (database E) (gid (r_gallery r))
                          \<and> get_feedback (database E) (gid (r_gallery r)) = None"
    if "recommend_similar L D now E g limit' = Inr (recs3, E3)"
    using 3[OF that] by blast
  show ?thesis
    apply (intro conjI impI)
    subgoal by (rule A)
    subgoal by (rule B)
    subgoal by (rule C)
    subgoal by (rule 4)
    subgoal by (rule 5)
    subgoal by (rule 6) blast+
    done
qed

theorem recommend_never_returns_known_witness:
  "recommend_new_galleries lib0 ehdb0 0 (engine_of db0 config0 True) 0 100
     = Inr ([rec_elf ''new''],
            logged (InfoRecommendCompleted 3 1)
              (logged (InfoRecommendNew 0) (engine_of db0 config0 True)))
   \<and> recommend_from_pool lib0 ehdb0 0 (engine_of db0 config0 True) 100 3
     = Inr ([rec_elf ''old''],
            logged (InfoRecommendCompleted 3 1)
              (logged (InfoRecommendPool 100) (engine_of db0 config0 True)))
   \<and> recommend_similar lib0 ehdb0 0 (engine_of db0 config0 True) 2 10
     = Inr ([rec_elf ''manual''],
            logged (InfoRecommendCompleted 2 1)
              (logged (InfoRecommendSimilar 2) (engine_of db0 config0 True)))
   \<and> recommend_new_galleries lib0 ehdb0 0 engine_same 0 100
     = Inr ([rec_nan ''new''],
            logged (InfoRecommendCompleted 3 1) (logged (InfoRecommendNew 0) engine_same))
   \<and> \<not> is_favorited db0 (gid (r_gallery (rec_elf ''new'')))
   \<and> get_feedback db0 (gid (r_gallery (rec_elf ''new''))) = None
   \<and> \<not> is_favorited db0 (gid (r_gallery (rec_nan ''new'')))
   \<and> get_feedback db0 (gid (r_gallery (rec_nan ''new''))) = None
   \<and> is_favorited db0 (gid gallery_x)
   \<and> get_feedback db0 (gid gallery_notags) = Some (- 1)"
proof -
  have d: "database (engine_of db0 config0 True) = db0" by (simp add: engine_of_def)
  have a: "\<not> is_favorited db0 (gid (r_gallery (rec_elf ''new'')))
        \<and> get_feedback db0 (gid (r_gallery (rec_elf ''new''))) = None"
    using recommend_never_returns_known[of lib0 ehdb0 0 "engine_of db0 config0 True" 0 100
        "[rec_elf ''new'']" "logged (InfoRecommendCompleted 3 1)
              (logged (InfoRecommendNew 0) (engine_of db0 config0 True))"]
      new_db0[of 0 0 100]
    by (simp add: d)
  have b: "\<not> is_favorited db0 (gid (r_gallery (rec_nan ''new'')))
        \<and> get_feedback db0 (gid (r_gallery (rec_nan ''new''))) = None"
    using recommend_never_returns_known[of lib0 ehdb0 0 engine_same 0 100
        "[rec_nan ''new'']" "logged (InfoRecommendCompleted 3 1)
              (logged (InfoRecommendNew 0) engine_same)"]
      new_same[of 0 0 100]
    by (simp add: engine_same_sel)
  have c: "is_favorited db0 (gid gallery_x)"
    by (simp add: is_favorited_def db0_def gallery_x_def)
  have e: "get_feedback db0 (gid gallery_notags) = Some (- 1)"
    by (simp add: get_feedback_def db0_def gallery_notags_def)
  show ?thesis
    using a b c e new_db0[of 0 0 100] pool_db0[of 0 100 3] similar_db0[of 0] new_same[of 0 0 100]
    by blast
qed

subsection \<open>The expiry window\<close>

















subsection \<open>No expiry window\<close>







subsection \<open>Feedback on a gallery the content store does not resolve\<close>

lemma handle_feedback_unresolved:
  assumes "get_gallery D g = Inr None"
  shows "handle_feedback L D now E g r source
           = Inr (logged (WarnNoGalleryInfo g)
                    (E\<lparr>database := add_feedback (database E) now g r source\<rparr>))"
  using assms by (simp add: handle_feedback_def Let_def)

lemma handle_feedback_resolved:
  assumes "get_gallery D g = Inr (Some gi)"
    and "handle_feedback L D now E g r source = Inr E'"
  shows "is_initialized E'
         \<and> (\<exists>evs. engine_log E' = engine_log E @ InfoInitStart # evs)"
proof -
  let ?E1 = "E\<lparr>database := learn_from_feedback L (add_feedback (database E) now g r source)
                                now g r gi\<rparr>"
  show ?thesis
  proof (cases "initialize L D now ?E1")
    case (Inl e)
    then show ?thesis using assms by (simp add: handle_feedback_def Let_def)
  next
    case (Inr E2)
    then have "E' = logged (InfoFeedbackDone g r) E2"
      using assms by (simp add: handle_feedback_def Let_def)
    then show ?thesis using initialize_runs[OF Inr] by (auto simp: logged_def)
  qed
qed

text \<open>
  C2 as the code has it. When the content store has no gallery for the id, the feedback
  record is stored, nothing else of the database and none of the profiles changes, the
  initialization flag is as before, the engine logs the warning and nothing else (so
  \<open>initialize\<close>, whose first act is to log its start, has not run), and the call returns
  normally. When the gallery resolves and the call returns, \<open>initialize\<close> has run.
\<close>

theorem feedback_unresolved_gallery:
  "(get_gallery D g = Inr None \<longrightarrow>
      (\<exists>E'. handle_feedback L D now E g r source = Inr E'
            \<and> get_feedback (database E') g = Some r
            \<and> user_preferences (database E') = user_preferences (database E)
            \<and> favorites (database E') = favorites (database E)
            \<and> recommendation_history (database E') = recommendation_history (database E)
            \<and> tag_analyzer E' = tag_analyzer E
            \<and> uploader_analyzer E' = uploader_analyzer E
            \<and> content_scorer E' = content_scorer E
            \<and> is_initialized E' = is_initialized E
            \<and> engine_log E' = engine_log E @ [WarnNoGalleryInfo g]))
   \<and> (get_gallery D g = Inr (Some gi) \<and> handle_feedback L D now E g r source = Inr E'' \<longrightarrow>
        is_initialized E''
        \<and> (\<exists>evs. engine_log E'' = engine_log E @ InfoInitStart # evs))"
proof -
  have 1: "\<exists>E'. handle_feedback L D now E g r source = Inr E'
            \<and> get_feedback (database E') g = Some r
            \<and> user_preferences (database E') = user_preferences (database E)
            \<and> favorites (database E') = favorites (database E)
            \<and> recommendation_history (database E') = recommendation_history (database E)
            \<and> tag_analyzer E' = tag_analyzer E
            \<and> uploader_analyzer E' = uploader_analyzer E
            \<and> content_scorer E' = content_scorer E
            \<and> is_initialized E' = is_initialized E
            \<and> engine_log E' = engine_log E @ [WarnNoGalleryInfo g]"
    if "get_gallery D g = Inr None"
    unfolding handle_feedback_unresolved[OF that]
    by (simp add: logged_def add_feedback_def get_feedback_def)
  show ?thesis using 1 handle_feedback_resolved by blast
qed

theorem feedback_unresolved_gallery_witness:
  "get_gallery ehdb0 42 = Inr None
   \<and> handle_feedback lib0 ehdb0 0 (engine_of db0 config0 False) 42 (- 1) ''new''
       = Inr (logged (WarnNoGalleryInfo 42)
                ((engine_of db0 config0 False)\<lparr>database := add_feedback db0 0 42 (- 1) ''new''\<rparr>))
   \<and> get_gallery ehdb0 2 = Inr (Some gallery_notags)
   \<and> handle_feedback lib0 ehdb0 0 (engine_of db0 config0 False) 2 (- 1) ''new''
       = Inr ((engine_of (add_feedback db0 0 2 (- 1) ''new'') config0 True)
                \<lparr>engine_log := [InfoInitStart, WarnNoFavoriteInfo, InfoFeedbackDone 2 (- 1)]\<rparr>)"
proof -
  let ?E = "engine_of db0 config0 False"
  have a: "get_gallery ehdb0 42 = Inr None" by (rule ehdb0_queries)
  have b: "get_gallery ehdb0 2 = Inr (Some gallery_notags)" by (rule ehdb0_queries)
  from feedback_unresolved_gallery[of ehdb0 42 lib0 0 ?E "- 1" "''new''" gallery_notags ?E] a
  obtain E' where "handle_feedback lib0 ehdb0 0 ?E 42 (- 1) ''new'' = Inr E'" by blast
  then have 1: "handle_feedback lib0 ehdb0 0 ?E 42 (- 1) ''new''
       = Inr (logged (WarnNoGalleryInfo 42)
                (?E\<lparr>database := add_feedback db0 0 42 (- 1) ''new''\<rparr>))"
    using handle_feedback_unresolved[OF a, of lib0 0 ?E "- 1" "''new''"]
    by (simp add: engine_of_sel)
  have l: "learn_from_feedback lib0 d 0 2 (- 1) gallery_notags = d" for d
    by (simp add: learn_from_feedback_def gallery_tags_def gallery_notags_def)
  have g: "get_galleries_by_ids ehdb0 ids = Inr []" for ids by (simp add: ehdb0_def)
  have 2: "handle_feedback lib0 ehdb0 0 ?E 2 (- 1) ''new''
       = Inr ((engine_of (add_feedback db0 0 2 (- 1) ''new'') config0 True)
                \<lparr>engine_log := [InfoInitStart, WarnNoFavoriteInfo, InfoFeedbackDone 2 (- 1)]\<rparr>)"
    by (simp add: handle_feedback_def b l initialize_def g Let_def logged_def engine_of_def
          get_all_favorites_def add_feedback_def db0_def)
  show ?thesis using a b 1 2 by blast
qed

text \<open>
  The claim as stated fails: with gallery 42 unknown to the content store, the call on an
  engine that was never initialized returns an engine that is still not initialized and
  whose log holds the warning only, where a run of \<open>initialize\<close> on the state with the
  stored feedback sets the flag and logs its start.
\<close>

theorem feedback_unresolved_gallery_counterexample:
  "get_gallery ehdb0 42 = Inr None
   \<and> handle_feedback lib0 ehdb0 0 (engine_of db0 config0 False) 42 (- 1) ''new''
       = Inr ((engine_of (add_feedback db0 0 42 (- 1) ''new'') config0 False)
                \<lparr>engine_log := [WarnNoGalleryInfo 42]\<rparr>)
   \<and> \<not> is_initialized ((engine_of (add_feedback db0 0 42 (- 1) ''new'') config0 False)
                \<lparr>engine_log := [WarnNoGalleryInfo 42]\<rparr>)
   \<and> InfoInitStart \<notin> set (engine_log
         ((engine_of (add_feedback db0 0 42 (- 1) ''new'') config0 False)
                \<lparr>engine_log := [WarnNoGalleryInfo 42]\<rparr>))
   \<and> initialize lib0 ehdb0 0 (engine_of (add_feedback db0 0 42 (- 1) ''new'') config0 False)
       = Inr ((engine_of (add_feedback db0 0 42 (- 1) ''new'') config0 True)
                \<lparr>engine_log := [InfoInitStart, WarnNoFavoriteInfo]\<rparr>)"
proof -
  have a: "get_gallery ehdb0 42 = Inr None" by (rule ehdb0_queries)
  have g: "get_galleries_by_ids ehdb0 ids = Inr []" for ids by (simp add: ehdb0_def)
  have 1: "handle_feedback lib0 ehdb0 0 (engine_of db0 config0 False) 42 (- 1) ''new''
       = Inr ((engine_of (add_feedback db0 0 42 (- 1) ''new'') config0 False)
                \<lparr>engine_log := [WarnNoGalleryInfo 42]\<rparr>)"
    unfolding handle_feedback_unresolved[OF a] by (simp add: logged_def engine_of_def)
  have 2: "initialize lib0 ehdb0 0 (engine_of (add_feedback db0 0 42 (- 1) ''new'') config0 False)
       = Inr ((engine_of (add_feedback db0 0 42 (- 1) ''new'') config0 True)
                \<lparr>engine_log := [InfoInitStart, WarnNoFavoriteInfo]\<rparr>)"
    by (simp add: initialize_def g Let_def logged_def engine_of_def get_all_favorites_def
          add_feedback_def db0_def)
  have 3: "\<not> is_initialized ((engine_of (add_feedback db0 0 42 (- 1) ''new'') config0 False)
                \<lparr>engine_log := [WarnNoGalleryInfo 42]\<rparr>)"
    "InfoInitStart \<notin> set (engine_log
         ((engine_of (add_feedback db0 0 42 (- 1) ''new'') config0 False)
                \<lparr>engine_log := [WarnNoGalleryInfo 42]\<rparr>))"
    by (simp_all add: engine_of_def)
  show ?thesis using a 1 2 3 by blast
qed

subsection \<open>Scoring twice\<close>

lemma recency_same_age:
  assumes "\<forall>t. posted_at L g = Some t \<longrightarrow> (now1 - t) div day_us = (now2 - t) div day_us"
  shows "compute_recency_score L now1 g = compute_recency_score L now2 g"
proof (cases "posted_at L g")
  case None
  then show ?thesis by (simp add: compute_recency_score_def)
next
  case (Some t)
  then have "(now1 - t) div day_us = (now2 - t) div day_us" using assms by blast
  then show ?thesis using Some by (simp add: compute_recency_score_def Let_def)
qed

lemma score_gallery_same_age:
  assumes "\<forall>t. posted_at L g = Some t \<longrightarrow> (now1 - t) div day_us = (now2 - t) div day_us"
  shows "score_gallery L now1 E g = score_gallery L now2 E g"
  unfolding score_gallery_def recency_same_age[OF assms] ..

text \<open>
  C8 as the code has it. The recency score reads the clock, so the result is a function
  of the gallery, the profiles and the age of the gallery in whole days. When a call
  returns, a second call on the engine it left behind returns the same pair and the same
  engine, provided the gallery has no usable posting time or is as many whole days old at
  the second call as at the first; on an initialized engine both calls do return, and
  leave the engine as it is. (A NaN score is the same value \<open>None\<close> both times.)
\<close>

theorem score_repeatable:
  "(compute_recommendation_score L D now1 E g = Inr (res, E1)
    \<and> (\<forall>t. posted_at L g = Some t \<longrightarrow> (now1 - t) div day_us = (now2 - t) div day_us)
    \<longrightarrow> compute_recommendation_score L D now2 E1 g = Inr (res, E1))
   \<and> (is_initialized E
    \<and> (\<forall>t. posted_at L g = Some t \<longrightarrow> (now1 - t) div day_us = (now2 - t) div day_us)
    \<longrightarrow> (\<exists>r. compute_recommendation_score L D now1 E g = Inr (r, E)
            \<and> compute_recommendation_score L D now2 E g = Inr (r, E)))"
proof (intro conjI impI; (elim conjE)?)
  assume a: "compute_recommendation_score L D now1 E g = Inr (res, E1)"
    and b: "\<forall>t. posted_at L g = Some t \<longrightarrow> (now1 - t) div day_us = (now2 - t) div day_us"
  from score_result[OF a] have i: "is_initialized E1"
    and s: "res = score_gallery L now1 E1 g" by blast+
  show "compute_recommendation_score L D now2 E1 g = Inr (res, E1)"
    unfolding score_initialized[OF i] s score_gallery_same_age[OF b] ..
next
  assume i: "is_initialized E"
    and b: "\<forall>t. posted_at L g = Some t \<longrightarrow> (now1 - t) div day_us = (now2 - t) div day_us"
  have "compute_recommendation_score L D now1 E g = Inr (score_gallery L now2 E g, E)"
    "compute_recommendation_score L D now2 E g = Inr (score_gallery L now2 E g, E)"
    unfolding score_initialized[OF i] score_gallery_same_age[OF b] by (rule refl)+
  then show "\<exists>r. compute_recommendation_score L D now1 E g = Inr (r, E)
            \<and> compute_recommendation_score L D now2 E g = Inr (r, E)"
    by blast
qed

lemma exp_minus4: "exp (- 4 :: real) \<le> 1/5"
proof -
  have "(5::real) \<le> exp 4" using exp_ge_add_one_self[of "4::real"] by simp
  then have "inverse (exp (4::real)) \<le> inverse 5" by (intro le_imp_inverse_le) simp_all
  then show ?thesis by (simp add: exp_minus)
qed

lemma posted_gallery_posted: "posted_at L gallery_posted = Some 0"
  by (simp add: posted_at_def gallery_posted_def)

lemma recency_posted:
  "compute_recency_score lib0 0 gallery_posted = 1"
  "compute_recency_score lib0 (day_us - 1) gallery_posted = 1"
  "compute_recency_score lib0 (2000 * day_us) gallery_posted = 1/5"
proof -
  show "compute_recency_score lib0 0 gallery_posted = 1"
    "compute_recency_score lib0 (day_us - 1) gallery_posted = 1"
    by (simp_all add: compute_recency_score_def posted_gallery_posted day_us_def)
  have "max (1/5) (min 1 (exp (- 4 :: real))) = 1/5" using exp_minus4 by simp
  then show "compute_recency_score lib0 (2000 * day_us) gallery_posted = 1/5"
    by (simp add: compute_recency_score_def posted_gallery_posted day_us_def)
qed

lemma recency_next_day: "compute_recency_score lib0 day_us gallery_posted < 1"
proof -
  have "exp (- (1/500) :: real) < 1" by simp
  then have "max (1/5) (min 1 (exp (- (1/500) :: real))) < 1" by simp
  then show ?thesis
    by (simp add: compute_recency_score_def posted_gallery_posted day_us_def)
qed

lemma round3_more: "round3 1 = 1" "round3 (1/5) = 1/5" "round3 (3/10) = 3/10"
  "round3 (13/50) = 13/50"
  by (simp_all add: round3_def Let_def)

lemma score_posted:
  assumes "plain E" and "compute_recency_score lib0 now gallery_posted = rc"
  shows "compute_recommendation_score lib0 D now E gallery_posted
           = Inr ((Some (1/4 + rc * (5/100)),
                   details_elf\<lparr>d_recency_score := round3 rc,
                               d_total_score := Some (round3 (1/4 + rc * (5/100)))\<rparr>), E)"
proof -
  from assms have i: "is_initialized E" and t: "tag_analyzer E = ta0"
    and u: "uploader_analyzer E = ua0" and c: "content_scorer E = cs0"
    by (simp_all add: plain_def)
  note cf = plain_config[OF assms(1)]
  have q: "compute_quality_score cs0 gallery_posted = Some (95/100)"
    by (simp add: compute_quality_score_def cs0_def gallery_posted_def gallery_elf_def
          np_mean_def Let_def)
  have ct: "compute_content_score lib0 cs0 gallery_posted = 4/10"
    by (simp add: compute_content_score_def cs0_def gallery_posted_def gallery_elf_def
          gallery_tags_def np_mean_def Let_def)
  have up: "uploader gallery_posted = None"
    by (simp add: gallery_posted_def gallery_elf_def)
  show ?thesis
    unfolding score_initialized[OF i] score_gallery_def
    by (simp add: t u c cf tag_sim0 explain0 uploader0 q ct assms(2) up
          Let_def details_elf_def round3_vals)
qed

theorem score_repeatable_witness:
  "compute_recommendation_score lib0 ehdb0 0 (engine_of db0 config0 True) gallery_posted
     = Inr ((Some (3/10), details_elf\<lparr>d_recency_score := 1, d_total_score := Some (3/10)\<rparr>),
            engine_of db0 config0 True)
   \<and> posted_at lib0 gallery_posted = Some 0
   \<and> (0 - 0) div day_us = (day_us - 1 - 0) div day_us
   \<and> compute_recommendation_score lib0 ehdb0 (day_us - 1) (engine_of db0 config0 True)
         gallery_posted
     = Inr ((Some (3/10), details_elf\<lparr>d_recency_score := 1, d_total_score := Some (3/10)\<rparr>),
            engine_of db0 config0 True)"
proof -
  let ?E = "engine_of db0 config0 True"
  let ?r = "(Some (3/10 :: real),
             details_elf\<lparr>d_recency_score := 1, d_total_score := Some (3/10)\<rparr>)"
  have a: "compute_recommendation_score lib0 ehdb0 0 ?E gallery_posted = Inr (?r, ?E)"
    using score_posted[OF plain_engine_of(2)[of db0] recency_posted(1), where D=ehdb0]
    by (simp add: round3_more)
  have b: "posted_at lib0 gallery_posted = Some 0" by (rule posted_gallery_posted)
  have c: "(0 - 0) div day_us = (day_us - 1 - 0) div day_us" by (simp add: day_us_def)
  have "\<forall>t. posted_at lib0 gallery_posted = Some t \<longrightarrow>
          (0 - t) div day_us = (day_us - 1 - t) div day_us"
    using b c by simp
  then have "compute_recommendation_score lib0 ehdb0 (day_us - 1) ?E gallery_posted
               = Inr (?r, ?E)"
    using score_repeatable[where L=lib0 and D=ehdb0 and ?now1.0=0 and E="?E"
        and g=gallery_posted and res="?r" and ?E1.0="?E" and ?now2.0="day_us - 1",
        THEN conjunct1] a
    by blast
  then show ?thesis using a b c by blast
qed

text \<open>
  The claim as stated fails: on the same initialized engine, which both calls leave as it
  is, a gallery posted at time 0 scores 0.3 at time 0 and 0.26 two thousand days later;
  and two calls a microsecond apart, the gallery turning one day old in between, differ
  as well.
\<close>

theorem score_repeatable_counterexample:
  "compute_recommendation_score lib0 ehdb0 0 (engine_of db0 config0 True) gallery_posted
     = Inr ((Some (3/10), details_elf\<lparr>d_recency_score := 1, d_total_score := Some (3/10)\<rparr>),
            engine_of db0 config0 True)
   \<and> compute_recommendation_score lib0 ehdb0 (2000 * day_us) (engine_of db0 config0 True)
         gallery_posted
     = Inr ((Some (13/50),
             details_elf\<lparr>d_recency_score := 1/5, d_total_score := Some (13/50)\<rparr>),
            engine_of db0 config0 True)
   \<and> compute_recommendation_score lib0 ehdb0 0 (engine_of db0 config0 True) gallery_posted
     \<noteq> compute_recommendation_score lib0 ehdb0 (2000 * day_us) (engine_of db0 config0 True)
         gallery_posted
   \<and> compute_recommendation_score lib0 ehdb0 (day_us - 1) (engine_of db0 config0 True)
         gallery_posted
     \<noteq> compute_recommendation_score lib0 ehdb0 day_us (engine_of db0 config0 True)
         gallery_posted"
proof -
  let ?E = "engine_of db0 config0 True"
  have a: "compute_recommendation_score lib0 ehdb0 0 ?E gallery_posted
     = Inr ((Some (3/10), details_elf\<lparr>d_recency_score := 1, d_total_score := Some (3/10)\<rparr>),
            ?E)"
    using score_posted[OF plain_engine_of(2)[of db0] recency_posted(1), where D=ehdb0]
    by (simp add: round3_more)
  have b: "compute_recommendation_score lib0 ehdb0 (2000 * day_us) ?E gallery_posted
     = Inr ((Some (13/50),
             details_elf\<lparr>d_recency_score := 1/5, d_total_score := Some (13/50)\<rparr>), ?E)"
    using score_posted[OF plain_engine_of(2)[of db0] recency_posted(3), where D=ehdb0]
    by (simp add: round3_more)
  have c: "compute_recommendation_score lib0 ehdb0 (day_us - 1) ?E gallery_posted
             \<noteq> compute_recommendation_score lib0 ehdb0 day_us ?E gallery_posted"
    unfolding score_posted[OF plain_engine_of(2)[of db0] recency_posted(2), where D=ehdb0]
      score_posted[OF plain_engine_of(2)[of db0] refl, where D=ehdb0 and now=day_us]
    using recency_next_day by simp
  have d: "compute_recommendation_score lib0 ehdb0 0 ?E gallery_posted
     \<noteq> compute_recommendation_score lib0 ehdb0 (2000 * day_us) ?E gallery_posted"
    unfolding a b by simp
  show ?thesis using a b c d by blast
qed

end
